theory Spec2Isabelle
  imports Main "HOL-Library.Word"
begin

unbundle bit_operations_syntax

section \<open>The vector-addition host program (src/task.cpp)\<close>

text \<open>
  The program is an OpenCL host: it selects a device, builds a kernel from a text file,
  creates three device buffers, uploads two host arrays, launches the kernel, downloads
  the result and prints it together with a measured duration.

  The embedding has three layers.
  \<^item> The \<^emph>\<open>world\<close>: what the OpenCL runtime, the C library and the operating system answer
    to the calls of the program. The program does not control these answers, so they are
    a parameter of every function.
  \<^item> The \<^emph>\<open>globals\<close>: the global variables of task.cpp, threaded through every function.
  \<^item> The \<^emph>\<open>trace\<close>: the calls with an outside effect, in program order. It is a field of
    the globals, appended to by every such call.
\<close>

subsection \<open>Machine types\<close>

text \<open>\<open>int\<close> and \<open>cl_int\<close> are 32 bits wide and read signed with \<open>sint\<close>; \<open>size_t\<close> is 64 bits.\<close>

type_synonym cl_int = "32 word"
type_synonym size_t = "64 word"

definition CL_SUCCESS :: cl_int where
  "CL_SUCCESS = 0"

definition CL_DEVICE_NOT_FOUND :: cl_int where
  "CL_DEVICE_NOT_FOUND = - 1"

definition CL_INVALID_PLATFORM :: cl_int where
  "CL_INVALID_PLATFORM = - 32"

definition CL_PLATFORM_NOT_FOUND_KHR :: cl_int where
  "CL_PLATFORM_NOT_FOUND_KHR = - 1001"

text \<open>The conversion \<open>(size_t)SZ\<close> of a signed \<open>int\<close> sign-extends.\<close>

definition to_size_t :: "cl_int \<Rightarrow> size_t" where
  "to_size_t n = word_of_int (sint n)"

text \<open>\<open>SZ * sizeof(int)\<close>: the \<open>int\<close> is converted to \<open>size_t\<close>, the product wraps at 64 bits.\<close>

definition nbytes :: "cl_int \<Rightarrow> size_t" where
  "nbytes n = to_size_t n * 4"

subsection \<open>Devices and platforms\<close>

datatype device_type =
    CL_DEVICE_TYPE_CPU
  | CL_DEVICE_TYPE_GPU
  | CL_DEVICE_TYPE_ACCELERATOR
  | CL_DEVICE_TYPE_CUSTOM

datatype cl_device_id = Device nat device_type

fun dev_type :: "cl_device_id \<Rightarrow> device_type" where
  "dev_type (Device i t) = t"

text \<open>A platform is the list of devices it exposes, in the runtime's order.\<close>

type_synonym cl_platform_id = "cl_device_id list"

subsection \<open>The trace\<close>

text \<open>
  One event per call with an effect outside the program: the OpenCL calls, \<open>fopen\<close>,
  \<open>malloc\<close> and \<open>free\<close> of the three host arrays, each \<open>printf\<close> with the text it writes,
  each \<open>perror\<close> with its message, and the two readings of the clock (\<open>Now\<close>). The
  transfers carry their blocking flag and their size in bytes. \<open>PrintfElapsed\<close> is the
  \<open>printf\<close> of the measured duration, a floating-point value that is not computed here.
\<close>

datatype buffer_name = BufV1 | BufV2 | BufV_out

datatype host_array = V1 | V2 | V_out

datatype event =
    GetPlatformIDs
  | GetDeviceIDs device_type
  | CreateContext
  | Fopen string
  | CreateProgramWithSource
  | BuildProgram
  | GetProgramBuildInfo
  | CreateCommandQueue
  | CreateKernel string
  | Malloc host_array size_t
  | CreateBuffer buffer_name size_t
  | EnqueueWriteBuffer buffer_name bool size_t
  | SetKernelArg nat
  | Now
  | EnqueueNDRangeKernel size_t
  | WaitForEvents
  | EnqueueReadBuffer buffer_name bool size_t
  | Printf string
  | PrintfElapsed
  | Perror string
  | ReleaseMemObject buffer_name
  | ReleaseKernel
  | ReleaseCommandQueue
  | ReleaseProgram
  | ReleaseContext
  | Free host_array

subsection \<open>The world\<close>

text \<open>
  Each field is the answer of the outside to one call of the program: an OpenCL status
  (negative on failure), the content of the kernel file, the build log, the values of
  \<open>rand()\<close>, whether \<open>malloc\<close> serves a request, and what a fresh device buffer holds.
\<close>

record world =
  platforms :: "cl_platform_id list"
  context_err :: cl_int
  program_file :: "string \<Rightarrow> string option"
  program_err :: cl_int
  build_err :: cl_int
  build_log :: string
  queue_err :: cl_int
  kernel_err :: cl_int
  malloc_ok :: "size_t \<Rightarrow> bool"
  rand_seq :: "nat \<Rightarrow> nat"
  buffer_err :: "buffer_name \<Rightarrow> cl_int"
  fresh_buffer :: "buffer_name \<Rightarrow> nat \<Rightarrow> 32 word"
  write_err :: "buffer_name \<Rightarrow> cl_int"
  arg_err :: "nat \<Rightarrow> cl_int"
  enqueue_err :: cl_int
  read_err :: cl_int

subsection \<open>The globals\<close>

text \<open>
  A pointer to an array is \<open>None\<close> when it is \<open>NULL\<close> and the array's content otherwise.

  The handle \<open>kernel\<close> is \<open>None\<close> as long as no kernel was created; otherwise it is the
  kernel object, which holds what is bound to each of its four parameters (\<open>None\<close> where
  nothing is bound). A bound value is an \<open>int\<close> or a \<open>cl_mem\<close> handle; a \<open>cl_mem\<close> handle is
  null or names its buffer object.

  The handles \<open>context\<close>, \<open>program\<close> and \<open>queue\<close> carry no data here: every use of one is
  reached only after the check that follows its creation has passed.
\<close>

datatype kernel_arg = ArgInt cl_int | ArgMem "buffer_name option"

type_synonym cl_kernel = "kernel_arg option list"

record globals =
  SZ :: cl_int
  v1 :: "32 word list option"
  v2 :: "32 word list option"
  v_out :: "32 word list option"
  bufV1 :: "32 word list option"
  bufV2 :: "32 word list option"
  bufV_out :: "32 word list option"
  device_id :: "cl_device_id option"
  kernel :: "cl_kernel option"
  event_set :: bool
  err :: cl_int
  rand_calls :: nat
  trace :: "event list"

definition initial_globals :: globals where
  "initial_globals =
     \<lparr>SZ = 100000000, v1 = None, v2 = None, v_out = None,
      bufV1 = None, bufV2 = None, bufV_out = None,
      device_id = None, kernel = None, event_set = False, err = 0, rand_calls = 0,
      trace = []\<rparr>"

definition emit :: "event \<Rightarrow> globals \<Rightarrow> globals" where
  "emit e s = s\<lparr>trace := trace s @ [e]\<rparr>"

text \<open>
  A function of the program either returns (\<open>Continue\<close>, with its value and the globals),
  ends the process through \<open>exit\<close> or the return of \<open>main\<close> (\<open>Exited\<close>, with the status), or
  stores through a null pointer (\<open>Crashed\<close>).
\<close>

datatype 'a outcome = Exited int globals | Crashed globals | Continue 'a globals

fun and_then :: "'a outcome \<Rightarrow> ('a \<Rightarrow> globals \<Rightarrow> 'b outcome) \<Rightarrow> 'b outcome" where
  "and_then (Exited c s) f = Exited c s"
| "and_then (Crashed s) f = Crashed s"
| "and_then (Continue x s) f = f x s"

fun final :: "'a outcome \<Rightarrow> globals" where
  "final (Exited c s) = s"
| "final (Crashed s) = s"
| "final (Continue x s) = s"

fun exit_status :: "'a outcome \<Rightarrow> int option" where
  "exit_status (Exited c s) = Some c"
| "exit_status (Crashed s) = None"
| "exit_status (Continue x s) = None"

subsection \<open>The OpenCL runtime's device enumeration\<close>

text \<open>
  The two enumeration calls, for the arguments the program passes (one entry requested,
  no count returned), as the OpenCL API documents them: \<open>clGetPlatformIDs\<close> hands out the
  first platform, and with no platform installed the loader answers
  \<open>CL_PLATFORM_NOT_FOUND_KHR\<close>; \<open>clGetDeviceIDs\<close> hands out the first device of the
  requested type of that platform and answers \<open>CL_DEVICE_NOT_FOUND\<close> when there is none.
  A failing call leaves the handle unwritten (\<open>None\<close>).
\<close>

definition clGetPlatformIDs :: "world \<Rightarrow> cl_int \<times> cl_platform_id option" where
  "clGetPlatformIDs w =
     (case platforms w of
        [] \<Rightarrow> (CL_PLATFORM_NOT_FOUND_KHR, None)
      | p # ps \<Rightarrow> (CL_SUCCESS, Some p))"

definition clGetDeviceIDs ::
    "cl_platform_id option \<Rightarrow> device_type \<Rightarrow> cl_int \<times> cl_device_id option" where
  "clGetDeviceIDs platform ty =
     (case platform of
        None \<Rightarrow> (CL_INVALID_PLATFORM, None)
      | Some p \<Rightarrow>
          (case filter (\<lambda>d. dev_type d = ty) p of
             [] \<Rightarrow> (CL_DEVICE_NOT_FOUND, None)
           | d # ds \<Rightarrow> (CL_SUCCESS, Some d)))"

subsection \<open>create_device\<close>

definition create_device :: "world \<Rightarrow> globals \<Rightarrow> (cl_device_id option) outcome" where
  "create_device w s =
     (case clGetPlatformIDs w of (err0, platform) \<Rightarrow>
      let s1 = emit GetPlatformIDs s in
      if sint err0 < 0
      then Exited 1 (emit (Perror ''Couldn't identify a platform'') s1)
      else
        (case clGetDeviceIDs platform CL_DEVICE_TYPE_GPU of (err1, dev1) \<Rightarrow>
         let s2 = emit (GetDeviceIDs CL_DEVICE_TYPE_GPU) s1 in
         (case (if err1 = CL_DEVICE_NOT_FOUND
                then (clGetDeviceIDs platform CL_DEVICE_TYPE_CPU,
                      emit (GetDeviceIDs CL_DEVICE_TYPE_CPU) s2)
                else ((err1, dev1), s2)) of
            ((err2, dev), s3) \<Rightarrow>
              if sint err2 < 0
              then Exited 1 (emit (Perror ''Couldn't access any devices'') s3)
              else Continue dev s3)))"

subsection \<open>printf and C strings\<close>

text \<open>\<open>printf("%d", x)\<close>: the decimal digits of a signed value, with a minus sign if negative.\<close>

definition digit_char :: "nat \<Rightarrow> char" where
  "digit_char d = ''0123456789'' ! d"

function show_nat :: "nat \<Rightarrow> string" where
  "show_nat n = (if n < 10 then [digit_char n] else show_nat (n div 10) @ [digit_char (n mod 10)])"
  by pat_completeness auto
termination
  by (relation "measure (\<lambda>n. n)") auto

declare show_nat.simps [simp del]

definition show_int :: "int \<Rightarrow> string" where
  "show_int i = (if i < 0 then CHR ''-'' # show_nat (nat (- i)) else show_nat (nat i))"

text \<open>\<open>printf("%s", p)\<close> prints the bytes at \<open>p\<close> up to the first NUL.\<close>

definition NUL :: char where
  "NUL = CHR 0x00"

definition c_string :: "string \<Rightarrow> string" where
  "c_string buf = takeWhile (\<lambda>c. c \<noteq> NUL) buf"

subsection \<open>atoi\<close>

text \<open>
  The C library's \<open>atoi(s)\<close> is \<open>(int) strtol(s, NULL, 10)\<close>. \<open>strtol\<close> skips white space,
  reads an optional sign and then the longest run of decimal digits (no digits give 0),
  and saturates at \<open>LONG_MIN\<close> and \<open>LONG_MAX\<close> of the 64-bit \<open>long\<close>. The conversion to
  \<open>int\<close> keeps the low 32 bits.
\<close>

definition isspace :: "char \<Rightarrow> bool" where
  "isspace c = (c \<in> set [CHR '' '', CHR 0x09, CHR 0x0A, CHR 0x0B, CHR 0x0C, CHR 0x0D])"

definition isdigit :: "char \<Rightarrow> bool" where
  "isdigit c = (c \<in> set ''0123456789'')"

definition digit_val :: "char \<Rightarrow> int" where
  "digit_val c = int (of_char c) - 48"

definition LONG_MAX :: int where
  "LONG_MAX = 9223372036854775807"

definition LONG_MIN :: int where
  "LONG_MIN = - 9223372036854775808"

definition atoi_digits :: "string \<Rightarrow> int" where
  "atoi_digits s = foldl (\<lambda>a c. 10 * a + digit_val c) 0 (takeWhile isdigit s)"

definition strtol :: "string \<Rightarrow> int" where
  "strtol s =
     (case dropWhile isspace s of
        [] \<Rightarrow> 0
      | c # cs \<Rightarrow>
          if c = CHR ''-'' then max LONG_MIN (- atoi_digits cs)
          else if c = CHR ''+'' then min LONG_MAX (atoi_digits cs)
          else min LONG_MAX (atoi_digits (c # cs)))"

definition atoi :: "string \<Rightarrow> cl_int" where
  "atoi s = word_of_int (strtol s)"

subsection \<open>init\<close>

text \<open>
  \<open>malloc\<close> hands out \<open>sizeof(int) * size\<close> bytes or \<open>NULL\<close>. The cells of a fresh block
  hold nothing the program may rely on; they are written as 0 here, and for a count of
  at least 0 the loop is shown to overwrite every one of them (\<open>init_success\<close>). The loop
  stores \<open>rand() % 100\<close> into \<open>A[i]\<close>, \<open>rand_seq w k\<close> being the value of the call number
  \<open>k\<close> of \<open>rand\<close>; a store through \<open>NULL\<close> or past the block ends the run.
\<close>

function init_loop ::
    "world \<Rightarrow> 32 word list option \<Rightarrow> int \<Rightarrow> int \<Rightarrow> globals \<Rightarrow> (32 word list option) outcome" where
  "init_loop w A i sz s =
     (if i < sz
      then (case A of
              None \<Rightarrow> Crashed s
            | Some xs \<Rightarrow>
                if 0 \<le> i \<and> nat i < length xs
                then init_loop w
                       (Some (xs[nat i := of_nat (rand_seq w (rand_calls s) mod 100)]))
                       (i + 1) sz (s\<lparr>rand_calls := Suc (rand_calls s)\<rparr>)
                else Crashed s)
      else Continue A s)"
  by pat_completeness auto
termination
  by (relation "measure (\<lambda>(w, A, i, sz, s). nat (sz - i))") auto

declare init_loop.simps [simp del]

definition init :: "world \<Rightarrow> host_array \<Rightarrow> cl_int \<Rightarrow> globals \<Rightarrow> (32 word list option) outcome" where
  "init w name sz s =
     (let s1 = emit (Malloc name (nbytes sz)) s;
          A = (if malloc_ok w (nbytes sz)
               then Some (replicate (unat (nbytes sz) div 4) 0)
               else None)
      in init_loop w A 0 (sint sz) s1)"

subsection \<open>print\<close>

definition PRINT :: int where
  "PRINT = 1"

function print_loop :: "32 word list option \<Rightarrow> int \<Rightarrow> int \<Rightarrow> globals \<Rightarrow> unit outcome" where
  "print_loop A i sz s =
     (if i < sz
      then (case A of
              None \<Rightarrow> Crashed s
            | Some xs \<Rightarrow>
                if 0 \<le> i \<and> nat i < length xs
                then print_loop A (i + 1) sz
                       (emit (Printf (show_int (sint (xs ! nat i)) @ '' '')) s)
                else Crashed s)
      else Continue () s)"
  by pat_completeness auto
termination
  by (relation "measure (\<lambda>(A, i, sz, s). nat (sz - i))") auto

declare print_loop.simps [simp del]

definition print :: "32 word list option \<Rightarrow> cl_int \<Rightarrow> globals \<Rightarrow> unit outcome" where
  "print A sz s =
     (if PRINT = 0 then Continue () s
      else
        and_then
          (if PRINT = 1 \<and> sint sz > 15
           then and_then (print_loop A 0 5 s)
                  (\<lambda>u s1. print_loop A (sint sz - 5) (sint sz) (emit (Printf '' ..... '') s1))
           else print_loop A 0 (sint sz) s)
          (\<lambda>u s2. Continue ()
             (emit (Printf (CHR 0x0A # ''----------------------------'' @ [CHR 0x0A])) s2)))"

subsection \<open>build_program\<close>

text \<open>
  The function assigns the global \<open>err\<close> (it declares none of its own). On a failed build
  it asks the runtime for the size of the log, allocates \<open>log_size + 1\<close> bytes, ends the
  block with a NUL, asks for the log itself and prints the block with \<open>"%s\n"\<close>. The
  runtime's log is a C string: \<open>log_size\<close> counts its bytes and the NUL after them. A store
  into a block that \<open>malloc\<close> refused ends the run.
\<close>

definition build_program :: "world \<Rightarrow> string \<Rightarrow> globals \<Rightarrow> unit outcome" where
  "build_program w filename s =
     (let s1 = emit (Fopen filename) s in
      case program_file w filename of
        None \<Rightarrow> Exited 1 (emit (Perror ''Couldn't find the program file'') s1)
      | Some source \<Rightarrow>
          if \<not> malloc_ok w (of_nat (length source) + 1) then Crashed s1
          else
            let s2 = (emit CreateProgramWithSource s1)\<lparr>err := program_err w\<rparr> in
            if sint (err s2) < 0
            then Exited 1 (emit (Perror ''Couldn't create the program'') s2)
            else
              let s3 = (emit BuildProgram s2)\<lparr>err := build_err w\<rparr> in
              if sint (err s3) < 0
              then
                let s4 = emit GetProgramBuildInfo s3;
                    log_size = of_nat (length (build_log w)) + (1 :: size_t)
                in if \<not> malloc_ok w (log_size + 1) then Crashed s4
                   else
                     let program_log = build_log w @ [NUL] @ [NUL];
                         s5 = emit GetProgramBuildInfo s4;
                         s6 = emit (Printf (c_string program_log @ [CHR 0x0A])) s5
                     in Exited 1 s6
              else Continue () s3)"

subsection \<open>setup_openCL_device_context_queue_kernel\<close>

text \<open>
  \<open>clCreateKernel\<close> answers a null handle when it fails and a kernel object with nothing
  bound to its four parameters otherwise.
\<close>

definition clCreateKernel :: "world \<Rightarrow> cl_kernel option" where
  "clCreateKernel w =
     (if sint (kernel_err w) < 0 then None else Some [None, None, None, None])"

definition setup_openCL_device_context_queue_kernel ::
    "world \<Rightarrow> string \<Rightarrow> string \<Rightarrow> globals \<Rightarrow> unit outcome" where
  "setup_openCL_device_context_queue_kernel w filename kernelname s =
     and_then (create_device w s) (\<lambda>dev s0.
       let s1 = emit CreateContext (s0\<lparr>device_id := dev\<rparr>) in
       if sint (context_err w) < 0
       then Exited 1 (emit (Perror ''Couldn't create a context'') s1)
       else
         and_then (build_program w filename s1) (\<lambda>u s2.
           let s3 = emit CreateCommandQueue s2 in
           if sint (queue_err w) < 0
           then Exited 1 (emit (Perror ''Couldn't create a command queue'') s3)
           else
             let s4 = (emit (CreateKernel kernelname) s3)\<lparr>kernel := clCreateKernel w\<rparr> in
             if sint (kernel_err w) < 0
             then Exited 1
                    (emit (Printf (''Error code = '' @ show_int (sint (kernel_err w))))
                       (emit (Perror ''Couldn't create a kernel'') s4))
             else Continue () s4))"

subsection \<open>Device memory\<close>

text \<open>
  What the three memory calls of the runtime do to the data, as the OpenCL API documents
  them. A buffer of \<open>size\<close> bytes holds \<open>size div 4\<close> cells of type \<open>int\<close>. A call that
  fails, or that is handed a null buffer or a null host pointer, moves no data. The
  program passes no place for a status to \<open>clCreateBuffer\<close> and drops the status of the
  two transfer calls, so only the data is returned here.
\<close>

definition clCreateBuffer :: "world \<Rightarrow> buffer_name \<Rightarrow> size_t \<Rightarrow> 32 word list option" where
  "clCreateBuffer w name size_bytes =
     (if sint (buffer_err w name) < 0 then None
      else Some (map (fresh_buffer w name) [0..<unat size_bytes div 4]))"

definition copy_cells :: "nat \<Rightarrow> 32 word list \<Rightarrow> 32 word list \<Rightarrow> 32 word list" where
  "copy_cells n src dst = take n src @ drop n dst"

definition clEnqueueWriteBuffer ::
    "world \<Rightarrow> buffer_name \<Rightarrow> 32 word list option \<Rightarrow> size_t \<Rightarrow> 32 word list option
       \<Rightarrow> 32 word list option" where
  "clEnqueueWriteBuffer w name buf size_bytes host =
     (case (buf, host) of
        (Some b, Some h) \<Rightarrow>
          if sint (write_err w name) < 0 then Some b
          else Some (copy_cells (unat size_bytes div 4) h b)
      | _ \<Rightarrow> buf)"

definition clEnqueueReadBuffer ::
    "world \<Rightarrow> 32 word list option \<Rightarrow> size_t \<Rightarrow> 32 word list option \<Rightarrow> 32 word list option" where
  "clEnqueueReadBuffer w buf size_bytes host =
     (case (buf, host) of
        (Some b, Some h) \<Rightarrow>
          if sint (read_err w) < 0 then Some h
          else Some (copy_cells (unat size_bytes div 4) b h)
      | _ \<Rightarrow> host)"

subsection \<open>setup_kernel_memory\<close>

definition setup_kernel_memory :: "world \<Rightarrow> globals \<Rightarrow> globals" where
  "setup_kernel_memory w s =
     (let n = nbytes (SZ s);
          s1 = (emit (CreateBuffer BufV1 n) s)\<lparr>bufV1 := clCreateBuffer w BufV1 n\<rparr>;
          s2 = (emit (CreateBuffer BufV2 n) s1)\<lparr>bufV2 := clCreateBuffer w BufV2 n\<rparr>;
          s3 = (emit (CreateBuffer BufV_out n) s2)\<lparr>bufV_out := clCreateBuffer w BufV_out n\<rparr>;
          s4 = (emit (EnqueueWriteBuffer BufV1 True n) s3)
                 \<lparr>bufV1 := clEnqueueWriteBuffer w BufV1 (bufV1 s3) n (v1 s3)\<rparr>;
          s5 = (emit (EnqueueWriteBuffer BufV2 True n) s4)
                 \<lparr>bufV2 := clEnqueueWriteBuffer w BufV2 (bufV2 s4) n (v2 s4)\<rparr>
      in s5)"

subsection \<open>copy_kernel_args\<close>

text \<open>
  \<open>clSetKernelArg(kernel, i, size, &x)\<close> copies the value of \<open>x\<close> into parameter \<open>i\<close> of the
  kernel object; a failing call, or a call on a null kernel, binds nothing. The value of
  a variable of type \<open>cl_mem\<close> is the handle of its buffer, null if the buffer was never
  created.
\<close>

definition clSetKernelArg ::
    "world \<Rightarrow> nat \<Rightarrow> kernel_arg \<Rightarrow> cl_kernel option \<Rightarrow> cl_kernel option" where
  "clSetKernelArg w i v k =
     (case k of
        None \<Rightarrow> None
      | Some slots \<Rightarrow>
          if sint (arg_err w i) < 0 then Some slots else Some (slots[i := Some v]))"

definition mem_handle :: "buffer_name \<Rightarrow> 32 word list option \<Rightarrow> buffer_name option" where
  "mem_handle name buf = (case buf of None \<Rightarrow> None | Some cells \<Rightarrow> Some name)"

definition copy_kernel_args :: "world \<Rightarrow> globals \<Rightarrow> unit outcome" where
  "copy_kernel_args w s =
     (let s0 = (emit (SetKernelArg 0) s)
                 \<lparr>err := arg_err w 0,
                  kernel := clSetKernelArg w 0 (ArgInt (SZ s)) (kernel s)\<rparr>;
          s1 = (emit (SetKernelArg 1) s0)
                 \<lparr>err := err s0 OR arg_err w 1,
                  kernel := clSetKernelArg w 1 (ArgMem (mem_handle BufV1 (bufV1 s0))) (kernel s0)\<rparr>;
          s2 = (emit (SetKernelArg 2) s1)
                 \<lparr>err := err s1 OR arg_err w 2,
                  kernel := clSetKernelArg w 2 (ArgMem (mem_handle BufV2 (bufV2 s1))) (kernel s1)\<rparr>;
          s3 = (emit (SetKernelArg 3) s2)
                 \<lparr>err := err s2 OR arg_err w 3,
                  kernel := clSetKernelArg w 3 (ArgMem (mem_handle BufV_out (bufV_out s2)))
                              (kernel s2)\<rparr>
      in if sint (err s3) < 0
         then Exited 1
                (emit (Printf (''Error code = '' @ show_int (sint (err s3))))
                   (emit (Perror ''Couldn't create a kernel argument'') s3))
         else Continue () s3)"

subsection \<open>The kernel\<close>

text \<open>
  Modelled from the spec: the kernel entry point \<open>vector_add_ocl\<close> of the resource
  \<open>./vector_ops.txt\<close>, which is not under src/. The spec gives its parameters (element
  count, input buffer A, input buffer B, output buffer, in that order) and its body: an
  elementwise addition, each invocation computing the one output element of its own
  index. An index outside a buffer is left alone here.
\<close>

definition vector_add_ocl ::
    "cl_int \<Rightarrow> 32 word list \<Rightarrow> 32 word list \<Rightarrow> 32 word list \<Rightarrow> nat \<Rightarrow> 32 word list" where
  "vector_add_ocl n a b out gid =
     (if gid < length a \<and> gid < length b \<and> gid < length out
      then out[gid := a ! gid + b ! gid]
      else out)"

text \<open>The buffer object that a handle names, and a store into it.\<close>

fun buffer :: "buffer_name \<Rightarrow> globals \<Rightarrow> 32 word list option" where
  "buffer BufV1 s = bufV1 s"
| "buffer BufV2 s = bufV2 s"
| "buffer BufV_out s = bufV_out s"

fun store_buffer :: "buffer_name \<Rightarrow> 32 word list \<Rightarrow> globals \<Rightarrow> globals" where
  "store_buffer BufV1 cells s = s\<lparr>bufV1 := Some cells\<rparr>"
| "store_buffer BufV2 cells s = s\<lparr>bufV2 := Some cells\<rparr>"
| "store_buffer BufV_out cells s = s\<lparr>bufV_out := Some cells\<rparr>"

text \<open>
  The operands of a launch are what is bound to the parameters of the kernel object, in
  the order of the kernel's signature: parameter 0 the element count, parameters 1 and 2
  the input buffers, parameter 3 the output buffer. A kernel with a parameter unbound,
  bound to a value of the wrong kind or to a null buffer has no operands.
\<close>

fun int_arg :: "kernel_arg option \<Rightarrow> cl_int option" where
  "int_arg (Some (ArgInt n)) = Some n"
| "int_arg x = None"

fun mem_arg :: "kernel_arg option \<Rightarrow> buffer_name option" where
  "mem_arg (Some (ArgMem h)) = h"
| "mem_arg x = None"

definition launch_operands ::
    "cl_kernel \<Rightarrow> (cl_int \<times> buffer_name \<times> buffer_name \<times> buffer_name) option" where
  "launch_operands slots =
     (if length slots \<noteq> 4 then None
      else
        (case (int_arg (slots ! 0), mem_arg (slots ! 1), mem_arg (slots ! 2), mem_arg (slots ! 3)) of
           (Some n, Some a, Some b, Some c) \<Rightarrow> Some (n, a, b, c)
         | _ \<Rightarrow> None))"

text \<open>
  \<open>clEnqueueNDRangeKernel\<close> over a one-dimensional domain of extent \<open>global\<close>: one
  invocation per index, on the operands of the kernel object, writing the buffer bound
  to parameter 3. The invocations write distinct cells, so the order in which the device
  runs them does not show; they are run here in index order. A failed submission runs
  nothing and leaves \<open>event\<close> unset. A launch without a kernel, without operands or on a
  buffer that does not exist is outside what is modelled and moves no data.
\<close>

definition clEnqueueNDRangeKernel :: "world \<Rightarrow> size_t \<Rightarrow> globals \<Rightarrow> globals" where
  "clEnqueueNDRangeKernel w global s =
     (let s1 = emit (EnqueueNDRangeKernel global) s in
      if sint (enqueue_err w) < 0 then s1
      else
        (let s2 = s1\<lparr>event_set := True\<rparr> in
         case kernel s2 of
           None \<Rightarrow> s2
         | Some slots \<Rightarrow>
             (case launch_operands slots of
                None \<Rightarrow> s2
              | Some (n, a, b, c) \<Rightarrow>
                  (case (buffer a s2, buffer b s2, buffer c s2) of
                     (Some xa, Some xb, Some xc) \<Rightarrow>
                       store_buffer c (foldl (vector_add_ocl n xa xb) xc [0..<unat global]) s2
                   | _ \<Rightarrow> s2))))"

subsection \<open>free_memory\<close>

definition free_memory :: "globals \<Rightarrow> globals" where
  "free_memory s =
     (let s1 = emit (ReleaseMemObject BufV1) s;
          s2 = emit (ReleaseMemObject BufV2) s1;
          s3 = emit (ReleaseMemObject BufV_out) s2;
          s4 = emit ReleaseKernel s3;
          s5 = emit ReleaseCommandQueue s4;
          s6 = emit ReleaseProgram s5;
          s7 = emit ReleaseContext s6;
          s8 = emit (Free V1) s7;
          s9 = emit (Free V2) s8
      in emit (Free V_out) s9)"

subsection \<open>main\<close>

text \<open>
  \<open>argv\<close> is the argument vector, the program's name first. The two readings of the clock
  are the events \<open>Now\<close>. \<open>main\<close> has no \<open>return\<close>: reaching its end is exit status 0.
\<close>

definition main :: "world \<Rightarrow> string list \<Rightarrow> unit outcome" where
  "main w argv =
     (let s0 = (if length argv > 1
                then initial_globals\<lparr>SZ := atoi (argv ! 1)\<rparr>
                else initial_globals)
      in
      and_then (init w V1 (SZ s0) s0) (\<lambda>A1 s1.
      and_then (init w V2 (SZ s1) (s1\<lparr>v1 := A1\<rparr>)) (\<lambda>A2 s2.
      and_then (init w V_out (SZ s2) (s2\<lparr>v2 := A2\<rparr>)) (\<lambda>A3 s3.
      let s4 = s3\<lparr>v_out := A3\<rparr>;
          global = to_size_t (SZ s4)
      in
      and_then (print (v1 s4) (SZ s4) s4) (\<lambda>u s5.
      and_then (print (v2 s5) (SZ s5) s5) (\<lambda>u s6.
      and_then (setup_openCL_device_context_queue_kernel w
                  ''./vector_ops.txt'' ''vector_add_ocl'' s6) (\<lambda>u s7.
      and_then (copy_kernel_args w (setup_kernel_memory w s7)) (\<lambda>u s8.
      let s9 = emit Now s8;
          s10 = clEnqueueNDRangeKernel w global s9;
          s11 = emit WaitForEvents s10;
          s12 = (emit (EnqueueReadBuffer BufV_out True (nbytes (SZ s11))) s11)
                  \<lparr>v_out := clEnqueueReadBuffer w (bufV_out s11) (nbytes (SZ s11)) (v_out s11)\<rparr>
      in
      and_then (print (v_out s12) (SZ s12) s12) (\<lambda>u s13.
      let s14 = emit Now s13;
          s15 = emit PrintfElapsed s14
      in Exited 0 (free_memory s15))))))))))"

section \<open>Vocabulary of the properties\<close>

subsection \<open>Reading an outcome\<close>

fun returned :: "'a outcome \<Rightarrow> 'a option" where
  "returned (Continue x s) = Some x"
| "returned (Exited c s) = None"
| "returned (Crashed s) = None"

subsection \<open>The device-selection policy, in the words of the specification\<close>

text \<open>
  \<open>selectDevice\<close> follows the specification's algorithm: fail if no platform is
  available; within the first platform take an accelerator-class (GPU) device; if there
  is none take a general-purpose (CPU) device; fail if there is neither.
\<close>

datatype select_error = PlatformNotFound | DeviceNotFound

definition selectDevice :: "cl_platform_id list \<Rightarrow> select_error + cl_device_id" where
  "selectDevice ps =
     (case ps of
        [] \<Rightarrow> Inl PlatformNotFound
      | p # rest \<Rightarrow>
          (case find (\<lambda>d. dev_type d = CL_DEVICE_TYPE_GPU) p of
             Some d \<Rightarrow> Inr d
           | None \<Rightarrow>
               (case find (\<lambda>d. dev_type d = CL_DEVICE_TYPE_CPU) p of
                  Some d \<Rightarrow> Inr d
                | None \<Rightarrow> Inl DeviceNotFound)))"

text \<open>A platform exposes a device class when one of its devices has that type.\<close>

definition exposes :: "cl_platform_id \<Rightarrow> device_type \<Rightarrow> bool" where
  "exposes p ty = (ty \<in> set (map dev_type p))"

subsection \<open>Printed lines\<close>

definition cell :: "32 word \<Rightarrow> event" where
  "cell x = Printf (show_int (sint x) @ '' '')"

definition ellipsis :: event where
  "ellipsis = Printf '' ..... ''"

definition rule_line :: event where
  "rule_line = Printf (CHR 0x0A # ''----------------------------'' @ [CHR 0x0A])"

subsection \<open>Classes of events\<close>

text \<open>The events of the stages that run before any device buffer exists.\<close>

fun early :: "event \<Rightarrow> bool" where
  "early (Malloc a n) = True"
| "early (Printf t) = True"
| "early (Perror t) = True"
| "early GetPlatformIDs = True"
| "early (GetDeviceIDs ty) = True"
| "early CreateContext = True"
| "early (Fopen f) = True"
| "early CreateProgramWithSource = True"
| "early BuildProgram = True"
| "early GetProgramBuildInfo = True"
| "early CreateCommandQueue = True"
| "early (CreateKernel k) = True"
| "early e = False"

fun is_printf :: "event \<Rightarrow> bool" where
  "is_printf (Printf t) = True"
| "is_printf e = False"

fun is_perror :: "event \<Rightarrow> bool" where
  "is_perror (Perror t) = True"
| "is_perror e = False"

fun is_launch :: "event \<Rightarrow> bool" where
  "is_launch (EnqueueNDRangeKernel g) = True"
| "is_launch e = False"

fun is_release :: "event \<Rightarrow> bool" where
  "is_release (ReleaseMemObject b) = True"
| "is_release ReleaseKernel = True"
| "is_release ReleaseCommandQueue = True"
| "is_release ReleaseProgram = True"
| "is_release ReleaseContext = True"
| "is_release (Free a) = True"
| "is_release e = False"

fun is_create_buffer :: "event \<Rightarrow> bool" where
  "is_create_buffer (CreateBuffer b n) = True"
| "is_create_buffer e = False"

subsection \<open>The blocks of calls of the pipeline\<close>

definition memory_events :: "size_t \<Rightarrow> event list" where
  "memory_events n =
     [CreateBuffer BufV1 n, CreateBuffer BufV2 n, CreateBuffer BufV_out n,
      EnqueueWriteBuffer BufV1 True n, EnqueueWriteBuffer BufV2 True n]"

definition arg_events :: "event list" where
  "arg_events = [SetKernelArg 0, SetKernelArg 1, SetKernelArg 2, SetKernelArg 3]"

definition launch_events :: "size_t \<Rightarrow> size_t \<Rightarrow> event list" where
  "launch_events g n =
     [Now, EnqueueNDRangeKernel g, WaitForEvents, EnqueueReadBuffer BufV_out True n]"

definition release_events :: "event list" where
  "release_events =
     [ReleaseMemObject BufV1, ReleaseMemObject BufV2, ReleaseMemObject BufV_out,
      ReleaseKernel, ReleaseCommandQueue, ReleaseProgram, ReleaseContext,
      Free V1, Free V2, Free V_out]"

text \<open>The status that \<open>copy_kernel_args\<close> tests: the four binding statuses or-ed together.\<close>

definition args_status :: "world \<Rightarrow> cl_int" where
  "args_status w = ((arg_err w 0 OR arg_err w 1) OR arg_err w 2) OR arg_err w 3"

text \<open>The kernel object, and the globals, when \<open>copy_kernel_args\<close> has made its four calls.\<close>

definition bound_kernel :: "world \<Rightarrow> globals \<Rightarrow> cl_kernel option" where
  "bound_kernel w s =
     clSetKernelArg w 3 (ArgMem (mem_handle BufV_out (bufV_out s)))
       (clSetKernelArg w 2 (ArgMem (mem_handle BufV2 (bufV2 s)))
          (clSetKernelArg w 1 (ArgMem (mem_handle BufV1 (bufV1 s)))
             (clSetKernelArg w 0 (ArgInt (SZ s)) (kernel s))))"

definition after_binding :: "world \<Rightarrow> globals \<Rightarrow> globals" where
  "after_binding w s =
     s\<lparr>kernel := bound_kernel w s, err := args_status w, trace := trace s @ arg_events\<rparr>"

text \<open>
  A stage \<open>grows\<close> the trace by events of a class, keeps the element count and does not
  end the process with status 0.
\<close>

definition grows :: "(event \<Rightarrow> bool) \<Rightarrow> globals \<Rightarrow> 'a outcome \<Rightarrow> bool" where
  "grows P s r \<longleftrightarrow>
     (\<exists>es. trace (final r) = trace s @ es \<and> list_all P es) \<and>
     SZ (final r) = SZ s \<and> exit_status r \<noteq> Some 0"

text \<open>The four shapes of a trace of \<open>main\<close>, by the place where the run ends.\<close>

definition run_shape :: "world \<Rightarrow> cl_int \<Rightarrow> unit outcome \<Rightarrow> bool" where
  "run_shape w sz r \<longleftrightarrow>
     SZ (final r) = sz \<and>
     (\<exists>pre ps out.
        list_all early pre \<and> list_all is_printf ps \<and>
        (let n = nbytes sz; g = to_size_t sz; tr = trace (final r)
         in (tr = pre \<and> exit_status r \<noteq> Some 0) \<or>
            (BuildProgram \<in> set pre \<and> sint (args_status w) < 0 \<and> exit_status r = Some 1 \<and>
             tr = pre @ memory_events n @ arg_events @
                  [Perror ''Couldn't create a kernel argument'', Printf out]) \<or>
            (BuildProgram \<in> set pre \<and> \<not> sint (args_status w) < 0 \<and> exit_status r = None \<and>
             tr = pre @ memory_events n @ arg_events @ launch_events g n @ ps) \<or>
            (BuildProgram \<in> set pre \<and> \<not> sint (args_status w) < 0 \<and> exit_status r = Some 0 \<and>
             tr = pre @ memory_events n @ arg_events @ launch_events g n @ ps @
                  [Now, PrintfElapsed] @ release_events)))"

text \<open>
  The statements of \<open>main\<close> from the first reading of the clock to its end (lines 63 to
  83 of task.cpp), as a block of their own; \<open>main_blocks\<close> below shows \<open>main\<close> to be the
  stages before it followed by this block.
\<close>

definition launch_and_report :: "world \<Rightarrow> size_t \<Rightarrow> globals \<Rightarrow> unit outcome" where
  "launch_and_report w global s8 =
     (let s9 = emit Now s8;
          s10 = clEnqueueNDRangeKernel w global s9;
          s11 = emit WaitForEvents s10;
          s12 = (emit (EnqueueReadBuffer BufV_out True (nbytes (SZ s11))) s11)
                  \<lparr>v_out := clEnqueueReadBuffer w (bufV_out s11) (nbytes (SZ s11)) (v_out s11)\<rparr>
      in
      and_then (print (v_out s12) (SZ s12) s12) (\<lambda>u s13.
      let s14 = emit Now s13;
          s15 = emit PrintfElapsed s14
      in Exited 0 (free_memory s15)))"

text \<open>The globals when \<open>main\<close> has read its arguments.\<close>

definition after_args :: "string list \<Rightarrow> globals" where
  "after_args argv =
     (if length argv > 1
      then initial_globals\<lparr>SZ := atoi (argv ! 1)\<rparr>
      else initial_globals)"

subsection \<open>Sample worlds and arguments\<close>

text \<open>
  A machine on which every call succeeds: one platform with one GPU, a readable kernel
  file, a C library that serves requests of up to 4096 bytes.
\<close>

definition sample_world :: world where
  "sample_world =
     \<lparr>platforms = [[Device 0 CL_DEVICE_TYPE_GPU]],
      context_err = 0,
      program_file = (\<lambda>f. if f = ''./vector_ops.txt'' then Some ''__kernel'' else None),
      program_err = 0, build_err = 0, build_log = [],
      queue_err = 0, kernel_err = 0,
      malloc_ok = (\<lambda>n. n \<le> 4096),
      rand_seq = (\<lambda>k. 7 * k + 3),
      buffer_err = (\<lambda>b. 0),
      fresh_buffer = (\<lambda>b i. 0),
      write_err = (\<lambda>b. 0),
      arg_err = (\<lambda>i. 0),
      enqueue_err = 0, read_err = 0\<rparr>"

definition two_elements :: "string list" where
  "two_elements = [''./task'', ''2'']"

subsection \<open>Host accesses and outstanding device work\<close>

fun is_queue_op :: "event \<Rightarrow> bool" where
  "is_queue_op (EnqueueWriteBuffer b blocking n) = True"
| "is_queue_op (EnqueueReadBuffer b blocking n) = True"
| "is_queue_op (EnqueueNDRangeKernel g) = True"
| "is_queue_op WaitForEvents = True"
| "is_queue_op e = False"

text \<open>
  The specification's invariant, read on a trace. \<open>busy\<close> lists the buffers touched by a
  device-side operation that is still outstanding. A transfer is a host access to its
  buffer, so the buffer must not be busy; a blocking transfer has completed when the call
  returns, a non-blocking one leaves its buffer busy. A kernel may only be submitted when
  nothing is outstanding, and makes its three buffers busy. The wait on the completion
  event ends all outstanding work of the one in-order queue.
\<close>

fun hazard_free :: "buffer_name list \<Rightarrow> event list \<Rightarrow> bool" where
  "hazard_free busy [] = True"
| "hazard_free busy (EnqueueWriteBuffer b blocking n # es) =
     (b \<notin> set busy \<and> hazard_free (if blocking then busy else b # busy) es)"
| "hazard_free busy (EnqueueReadBuffer b blocking n # es) =
     (b \<notin> set busy \<and> hazard_free (if blocking then busy else b # busy) es)"
| "hazard_free busy (EnqueueNDRangeKernel g # es) =
     (busy = [] \<and> hazard_free [BufV1, BufV2, BufV_out] es)"
| "hazard_free busy (WaitForEvents # es) = hazard_free [] es"
| "hazard_free busy (e # es) = hazard_free busy es"

subsection \<open>The life of the buffers\<close>

definition buffer_life :: "event \<Rightarrow> bool" where
  "buffer_life e \<longleftrightarrow>
     is_create_buffer e \<or> is_queue_op e \<and> e \<noteq> WaitForEvents \<or> is_release e"

subsection \<open>The measured span\<close>

text \<open>The events after the first reading of the clock and before the next one.\<close>

definition timed :: "event list \<Rightarrow> event list" where
  "timed tr = takeWhile (\<lambda>e. e \<noteq> Now) (tl (dropWhile (\<lambda>e. e \<noteq> Now) tr))"

subsection \<open>Runs in which every checked stage passes\<close>

text \<open>The array that \<open>init\<close> fills when \<open>rand\<close> has been called \<open>k\<close> times before.\<close>

definition rand_array :: "world \<Rightarrow> nat \<Rightarrow> nat \<Rightarrow> 32 word list" where
  "rand_array w k n = map (\<lambda>j. of_nat (rand_seq w (k + j) mod 100)) [0..<n]"

text \<open>What \<open>print\<close> writes for an array.\<close>

definition preview :: "32 word list \<Rightarrow> event list" where
  "preview xs =
     (if length xs > 15
      then map cell (take 5 xs) @ [ellipsis] @ map cell (drop (length xs - 5) xs) @ [rule_line]
      else map cell xs @ [rule_line])"

definition selected :: "world \<Rightarrow> cl_device_id option" where
  "selected w = (case selectDevice (platforms w) of Inl e \<Rightarrow> None | Inr d \<Rightarrow> Some d)"

definition device_queries :: "world \<Rightarrow> event list" where
  "device_queries w =
     (case platforms w of
        [] \<Rightarrow> [GetPlatformIDs]
      | p # ps \<Rightarrow>
          if exposes p CL_DEVICE_TYPE_GPU
          then [GetPlatformIDs, GetDeviceIDs CL_DEVICE_TYPE_GPU]
          else [GetPlatformIDs, GetDeviceIDs CL_DEVICE_TYPE_GPU,
                GetDeviceIDs CL_DEVICE_TYPE_CPU])"

definition setup_events :: "world \<Rightarrow> event list" where
  "setup_events w =
     device_queries w @
     [CreateContext, Fopen ''./vector_ops.txt'', CreateProgramWithSource, BuildProgram,
      CreateCommandQueue, CreateKernel ''vector_add_ocl'']"

text \<open>Every call up to the creation of the kernel succeeds.\<close>

definition setup_ok :: "world \<Rightarrow> bool" where
  "setup_ok w \<longleftrightarrow>
     selected w \<noteq> None \<and>
     \<not> sint (context_err w) < 0 \<and>
     (case program_file w ''./vector_ops.txt'' of
        None \<Rightarrow> False
      | Some source \<Rightarrow> malloc_ok w (of_nat (length source) + 1)) \<and>
     \<not> sint (program_err w) < 0 \<and>
     \<not> sint (build_err w) < 0 \<and>
     \<not> sint (queue_err w) < 0 \<and>
     \<not> sint (kernel_err w) < 0"

text \<open>Every buffer creation, transfer and submission succeeds.\<close>

definition transfers_ok :: "world \<Rightarrow> bool" where
  "transfers_ok w \<longleftrightarrow>
     \<not> sint (buffer_err w BufV1) < 0 \<and> \<not> sint (buffer_err w BufV2) < 0 \<and>
     \<not> sint (buffer_err w BufV_out) < 0 \<and>
     \<not> sint (write_err w BufV1) < 0 \<and> \<not> sint (write_err w BufV2) < 0 \<and>
     \<not> sint (enqueue_err w) < 0 \<and> \<not> sint (read_err w) < 0"

text \<open>A pointer is \<open>sized\<close> when it is null or points to that many cells.\<close>

definition sized :: "nat \<Rightarrow> 32 word list option \<Rightarrow> bool" where
  "sized N A \<longleftrightarrow> (case A of None \<Rightarrow> True | Some xs \<Rightarrow> length xs = N)"

text \<open>
  The two input arrays and the first content of the output array, as the three calls of
  \<open>init\<close> draw them from \<open>rand\<close> for an element count \<open>sz\<close>.
\<close>

definition input_a :: "world \<Rightarrow> cl_int \<Rightarrow> 32 word list" where
  "input_a w sz = rand_array w 0 (nat (sint sz))"

definition input_b :: "world \<Rightarrow> cl_int \<Rightarrow> 32 word list" where
  "input_b w sz = rand_array w (nat (sint sz)) (nat (sint sz))"

definition first_out :: "world \<Rightarrow> cl_int \<Rightarrow> 32 word list" where
  "first_out w sz = rand_array w (nat (sint sz) + nat (sint sz)) (nat (sint sz))"

text \<open>The events up to the creation of the kernel, and the globals at that point.\<close>

definition host_events :: "world \<Rightarrow> cl_int \<Rightarrow> event list" where
  "host_events w sz =
     [Malloc V1 (nbytes sz), Malloc V2 (nbytes sz), Malloc V_out (nbytes sz)] @
     preview (input_a w sz) @ preview (input_b w sz)"

definition ready :: "world \<Rightarrow> cl_int \<Rightarrow> globals" where
  "ready w sz =
     initial_globals
       \<lparr>SZ := sz,
        v1 := Some (input_a w sz), v2 := Some (input_b w sz), v_out := Some (first_out w sz),
        device_id := selected w, kernel := Some [None, None, None, None],
        err := build_err w,
        rand_calls := nat (sint sz) + nat (sint sz) + nat (sint sz),
        trace := host_events w sz @ setup_events w\<rparr>"

text \<open>The two uploads of \<open>setup_kernel_memory\<close>.\<close>

definition uploads :: "size_t \<Rightarrow> event list" where
  "uploads n = [EnqueueWriteBuffer BufV1 True n, EnqueueWriteBuffer BufV2 True n]"

text \<open>
  Machines on which one of the calls that the program does not check fails: the creation
  of the buffers (\<open>CL_MEM_OBJECT_ALLOCATION_FAILURE\<close>), the two uploads and the download
  (\<open>CL_OUT_OF_RESOURCES\<close>), the submission of the kernel (\<open>CL_OUT_OF_RESOURCES\<close>).
\<close>

definition no_buffers_world :: world where
  "no_buffers_world = sample_world\<lparr>buffer_err := (\<lambda>b. - 4)\<rparr>"

definition no_transfer_world :: world where
  "no_transfer_world = sample_world\<lparr>write_err := (\<lambda>b. - 5), read_err := - 5\<rparr>"

definition no_launch_world :: world where
  "no_launch_world = sample_world\<lparr>enqueue_err := - 5\<rparr>"

text \<open>A machine on which the binding of argument 2 fails (\<open>CL_INVALID_ARG_VALUE\<close>).\<close>

definition bad_arg_world :: world where
  "bad_arg_world = sample_world\<lparr>arg_err := (\<lambda>i. if i = 2 then - 50 else 0)\<rparr>"

text \<open>
  A machine whose first platform exposes only a device of type
  \<open>CL_DEVICE_TYPE_ACCELERATOR\<close> and whose second platform exposes a CPU; machines whose
  one platform exposes only a CPU, and no device of either class; a machine without a
  platform.
\<close>

definition second_platform_world :: world where
  "second_platform_world =
     sample_world\<lparr>platforms := [[Device 0 CL_DEVICE_TYPE_ACCELERATOR],
                                  [Device 1 CL_DEVICE_TYPE_CPU]]\<rparr>"

definition cpu_only_world :: world where
  "cpu_only_world = sample_world\<lparr>platforms := [[Device 0 CL_DEVICE_TYPE_CPU]]\<rparr>"

definition no_platform_world :: world where
  "no_platform_world = sample_world\<lparr>platforms := []\<rparr>"

subsection \<open>A failed build\<close>

text \<open>The events of \<open>init\<close> and \<open>print\<close>.\<close>

fun host_event :: "event \<Rightarrow> bool" where
  "host_event (Malloc a n) = True"
| "host_event (Printf t) = True"
| "host_event e = False"

text \<open>What \<open>build_program\<close> does from the failing call on: two queries, then the log.\<close>

definition log_report :: "world \<Rightarrow> event list" where
  "log_report w =
     [BuildProgram, GetProgramBuildInfo, GetProgramBuildInfo,
      Printf (build_log w @ [CHR 0x0A])]"

text \<open>A run either never calls \<open>clBuildProgram\<close> or ends, status 1, with the report.\<close>

definition build_reported :: "world \<Rightarrow> 'a outcome \<Rightarrow> bool" where
  "build_reported w r \<longleftrightarrow>
     BuildProgram \<notin> set (trace (final r)) \<or>
     exit_status r = Some 1 \<and>
     (\<exists>pre. BuildProgram \<notin> set pre \<and> trace (final r) = pre @ log_report w)"

text \<open>A machine whose compiler rejects the kernel (\<open>CL_BUILD_PROGRAM_FAILURE\<close>).\<close>

definition broken_kernel_world :: world where
  "broken_kernel_world =
     sample_world\<lparr>build_err := - 11, build_log := ''1:1: error: unknown type name''\<rparr>"

subsection \<open>Arguments that are no element count\<close>

definition letters_argument :: "string list" where
  "letters_argument = [''./task'', ''abc'']"

definition negative_argument :: "string list" where
  "negative_argument = [''./task'', ''-5'']"

text \<open>The events of a run with no element to print, when every checked call succeeds.\<close>

definition empty_run :: "world \<Rightarrow> cl_int \<Rightarrow> event list" where
  "empty_run w sz =
     [Malloc V1 (nbytes sz), Malloc V2 (nbytes sz), Malloc V_out (nbytes sz),
      rule_line, rule_line] @
     setup_events w @ memory_events (nbytes sz) @ arg_events @
     launch_events (to_size_t sz) (nbytes sz) @
     [rule_line, Now, PrintfElapsed] @ release_events"

text \<open>
  A machine that refuses buffers of an invalid size (\<open>CL_INVALID_BUFFER_SIZE\<close>), transfers
  on the missing buffers (\<open>CL_INVALID_MEM_OBJECT\<close>) and a work domain of an invalid
  extent (\<open>CL_INVALID_GLOBAL_WORK_SIZE\<close>), as a runtime does for a count that is zero or
  negative.
\<close>

definition invalid_size_world :: world where
  "invalid_size_world =
     sample_world\<lparr>buffer_err := (\<lambda>b. - 61), write_err := (\<lambda>b. - 38),
                  enqueue_err := - 63, read_err := - 38\<rparr>"

definition beyond_long_argument :: "string list" where
  "beyond_long_argument = [''./task'', ''9223372036854775808'']"

text \<open>
  A machine whose compiler rejects the kernel and whose C library serves requests of up
  to 16 bytes only: the host arrays of two elements and the source text fit, the block
  for the log does not.
\<close>

definition tight_world :: world where
  "tight_world = broken_kernel_world\<lparr>malloc_ok := (\<lambda>n. n \<le> 16)\<rparr>"

section \<open>How each stage extends the trace\<close>

subsection \<open>init and print\<close>

lemma init_loop_final:
  "\<exists>k. final (init_loop w A i n s) = s\<lparr>rand_calls := k\<rparr> \<and>
       exit_status (init_loop w A i n s) = None"
proof (induction k \<equiv> "nat (n - i)" arbitrary: A i s)
  case 0
  then have "\<not> i < n" by simp
  then have "init_loop w A i n s = Continue A s" by (subst init_loop.simps) simp
  moreover have "s = s\<lparr>rand_calls := rand_calls s\<rparr>" by simp
  ultimately show ?case by (metis final.simps(3) exit_status.simps(3))
next
  case (Suc k)
  then have lt: "i < n" by linarith
  show ?case
  proof (cases "\<exists>xs. A = Some xs \<and> 0 \<le> i \<and> nat i < length xs")
    case False
    then have "init_loop w A i n s = Crashed s"
      using lt by (subst init_loop.simps) (auto split: option.splits)
    moreover have "s = s\<lparr>rand_calls := rand_calls s\<rparr>" by simp
    ultimately show ?thesis by (metis final.simps(2) exit_status.simps(2))
  next
    case True
    then obtain xs where A: "A = Some xs" "0 \<le> i" "nat i < length xs" by blast
    let ?A = "Some (xs[nat i := of_nat (rand_seq w (rand_calls s) mod 100)])"
    let ?s = "s\<lparr>rand_calls := Suc (rand_calls s)\<rparr>"
    have eq: "init_loop w A i n s = init_loop w ?A (i + 1) n ?s"
      using lt A by (subst init_loop.simps) simp
    have "k = nat (n - (i + 1))" using Suc.hyps(2) by linarith
    from Suc.hyps(1) [OF this, of ?A ?s]
    obtain j where "final (init_loop w ?A (i + 1) n ?s) = ?s\<lparr>rand_calls := j\<rparr>"
      and "exit_status (init_loop w ?A (i + 1) n ?s) = None" by blast
    then show ?thesis unfolding eq by (intro exI [of _ j]) simp
  qed
qed

lemma grows_init: "grows early s (init w name n s)"
proof -
  let ?s1 = "emit (Malloc name (nbytes n)) s"
  obtain A where r: "init w name n s = init_loop w A 0 (sint n) ?s1"
    by (simp add: init_def Let_def)
  obtain k where "final (init_loop w A 0 (sint n) ?s1) = ?s1\<lparr>rand_calls := k\<rparr>"
    and "exit_status (init_loop w A 0 (sint n) ?s1) = None"
    using init_loop_final by blast
  then show ?thesis
    unfolding grows_def r by (simp add: emit_def)
qed

lemma print_loop_final:
  "\<exists>es. final (print_loop A i n s) = s\<lparr>trace := trace s @ es\<rparr> \<and> list_all is_printf es \<and>
        exit_status (print_loop A i n s) = None"
proof (induction k \<equiv> "nat (n - i)" arbitrary: i s)
  case 0
  then have "\<not> i < n" by simp
  then have "print_loop A i n s = Continue () s" by (subst print_loop.simps) simp
  then show ?case by (intro exI [of _ "[]"]) simp
next
  case (Suc k)
  then have lt: "i < n" by linarith
  show ?case
  proof (cases "\<exists>xs. A = Some xs \<and> 0 \<le> i \<and> nat i < length xs")
    case False
    then have "print_loop A i n s = Crashed s"
      using lt by (subst print_loop.simps) (auto split: option.splits)
    then show ?thesis by (intro exI [of _ "[]"]) simp
  next
    case True
    then obtain xs where A: "A = Some xs" "0 \<le> i" "nat i < length xs" by blast
    let ?s = "emit (cell (xs ! nat i)) s"
    have eq: "print_loop A i n s = print_loop A (i + 1) n ?s"
      using lt A by (subst print_loop.simps) (simp add: cell_def)
    have "k = nat (n - (i + 1))" using Suc.hyps(2) by linarith
    from Suc.hyps(1) [OF this, of ?s]
    obtain es where "final (print_loop A (i + 1) n ?s) = ?s\<lparr>trace := trace ?s @ es\<rparr>"
      and "list_all is_printf es" and "exit_status (print_loop A (i + 1) n ?s) = None" by blast
    then show ?thesis unfolding eq
      by (intro exI [of _ "cell (xs ! nat i) # es"]) (simp add: emit_def cell_def)
  qed
qed

lemma print_final:
  "\<exists>es. final (print A n s) = s\<lparr>trace := trace s @ es\<rparr> \<and> list_all is_printf es \<and>
        exit_status (print A n s) = None"
proof -
  have tail: "\<exists>es. final (and_then r (\<lambda>u s2. Continue () (emit rule_line s2))) = s\<lparr>trace := trace s @ es\<rparr>
        \<and> list_all is_printf es \<and> exit_status (and_then r (\<lambda>u s2. Continue () (emit rule_line s2))) = None"
    if "final r = s\<lparr>trace := trace s @ es0\<rparr>" "list_all is_printf es0" "exit_status r = None"
    for r :: "unit outcome" and es0
    using that by (cases r) (auto simp: emit_def rule_line_def intro: exI [of _ "es0 @ [rule_line]"])
  show ?thesis
  proof (cases "sint n > 15")
    case False
    obtain es0 where "final (print_loop A 0 (sint n) s) = s\<lparr>trace := trace s @ es0\<rparr>"
      "list_all is_printf es0" "exit_status (print_loop A 0 (sint n) s) = None"
      using print_loop_final by blast
    from tail [OF this] show ?thesis using False
      by (simp add: print_def PRINT_def rule_line_def)
  next
    case True
    obtain es0 where a: "final (print_loop A 0 5 s) = s\<lparr>trace := trace s @ es0\<rparr>"
      "list_all is_printf es0" "exit_status (print_loop A 0 5 s) = None"
      using print_loop_final by blast
    let ?r = "and_then (print_loop A 0 5 s)
                (\<lambda>u s1. print_loop A (sint n - 5) (sint n) (emit ellipsis s1))"
    have "\<exists>es1. final ?r = s\<lparr>trace := trace s @ es1\<rparr> \<and> list_all is_printf es1 \<and> exit_status ?r = None"
    proof (cases "print_loop A 0 5 s")
      case (Continue u s1)
      with a have s1: "s1 = s\<lparr>trace := trace s @ es0\<rparr>" by simp
      obtain es2 where "final (print_loop A (sint n - 5) (sint n) (emit ellipsis s1)) =
           (emit ellipsis s1)\<lparr>trace := trace (emit ellipsis s1) @ es2\<rparr>"
        "list_all is_printf es2" "exit_status (print_loop A (sint n - 5) (sint n) (emit ellipsis s1)) = None"
        using print_loop_final by blast
      then show ?thesis using Continue a(2)
        by (intro exI [of _ "es0 @ ellipsis # es2"]) (simp add: s1 emit_def ellipsis_def)
    qed (use a in auto)
    then obtain es1 where "final ?r = s\<lparr>trace := trace s @ es1\<rparr>" "list_all is_printf es1"
      "exit_status ?r = None" by blast
    from tail [OF this] show ?thesis using True
      by (simp add: print_def PRINT_def rule_line_def ellipsis_def)
  qed
qed

lemma list_all_mono_early: "list_all is_printf es \<Longrightarrow> list_all early es"
  by (induction es) (auto elim: is_printf.elims)

lemma grows_print: "grows early s (print A n s)"
proof -
  obtain es where "final (print A n s) = s\<lparr>trace := trace s @ es\<rparr>" "list_all is_printf es"
    "exit_status (print A n s) = None" using print_final by blast
  then show ?thesis by (simp add: grows_def list_all_mono_early)
qed

subsection \<open>Device selection, program build and set-up\<close>

lemma grows_create_device: "grows early s (create_device w s)"
  by (simp add: grows_def create_device_def emit_def Let_def split: prod.splits)

lemma grows_build_program:
  "grows early s (build_program w f s) \<and>
   (\<forall>u s'. build_program w f s = Continue u s' \<longrightarrow> BuildProgram \<in> set (trace s'))"
  by (auto simp add: grows_def build_program_def emit_def Let_def split: option.splits)

lemma grows_and_then:
  assumes "grows P s r"
    and "\<And>x s'. r = Continue x s' \<Longrightarrow> grows P s' (f x s')"
  shows "grows P s (and_then r f)"
proof (cases r)
  case (Continue x s')
  from assms(2) [OF this] assms(1) show ?thesis
    unfolding grows_def Continue by auto
qed (use assms(1) in \<open>auto simp: grows_def\<close>)

lemma grows_frame:
  "trace s' = trace s \<Longrightarrow> SZ s' = SZ s \<Longrightarrow> grows P s' r \<Longrightarrow> grows P s r"
  by (simp add: grows_def)

lemma grows_setup:
  "grows early s (setup_openCL_device_context_queue_kernel w f k s)"
  unfolding setup_openCL_device_context_queue_kernel_def
proof (rule grows_and_then [OF grows_create_device], goal_cases)
  case (1 dev s0)
  let ?s1 = "emit CreateContext (s0\<lparr>device_id := dev\<rparr>)"
  have g1: "grows early ?s1 (build_program w f ?s1)" using grows_build_program by blast
  have "grows early ?s1 (and_then (build_program w f ?s1) (\<lambda>u s2.
           let s3 = emit CreateCommandQueue s2 in
           if sint (queue_err w) < 0
           then Exited 1 (emit (Perror ''Couldn't create a command queue'') s3)
           else
             let s4 = (emit (CreateKernel k) s3)\<lparr>kernel := clCreateKernel w\<rparr> in
             if sint (kernel_err w) < 0
             then Exited 1
                    (emit (Printf (''Error code = '' @ show_int (sint (kernel_err w))))
                       (emit (Perror ''Couldn't create a kernel'') s4))
             else Continue () s4))"
    by (rule grows_and_then [OF g1]) (simp add: grows_def emit_def Let_def)
  then show ?case
    by (auto simp add: grows_def emit_def Let_def)
qed

lemma setup_built:
  "setup_openCL_device_context_queue_kernel w f k s = Continue u s' \<Longrightarrow>
   BuildProgram \<in> set (trace s')"
  unfolding setup_openCL_device_context_queue_kernel_def
  apply (cases "create_device w s"; simp add: Let_def split: if_splits)
  subgoal for dev s0
    apply (cases "build_program w f (emit CreateContext (s0\<lparr>device_id := dev\<rparr>))"; simp split: if_splits)
    using grows_build_program [of "emit CreateContext (s0\<lparr>device_id := dev\<rparr>)" w f]
    by (auto simp: emit_def Let_def split: if_splits)
  done


section \<open>The shape of every run of main\<close>

lemma main_blocks:
  "main w argv =
     and_then (init w V1 (SZ (after_args argv)) (after_args argv)) (\<lambda>A1 s1.
     and_then (init w V2 (SZ s1) (s1\<lparr>v1 := A1\<rparr>)) (\<lambda>A2 s2.
     and_then (init w V_out (SZ s2) (s2\<lparr>v2 := A2\<rparr>)) (\<lambda>A3 s3.
     and_then (print (v1 (s3\<lparr>v_out := A3\<rparr>)) (SZ (s3\<lparr>v_out := A3\<rparr>)) (s3\<lparr>v_out := A3\<rparr>)) (\<lambda>u s5.
     and_then (print (v2 s5) (SZ s5) s5) (\<lambda>u s6.
     and_then (setup_openCL_device_context_queue_kernel w
                 ''./vector_ops.txt'' ''vector_add_ocl'' s6) (\<lambda>u s7.
     and_then (copy_kernel_args w (setup_kernel_memory w s7))
       (\<lambda>u. launch_and_report w (to_size_t (SZ (s3\<lparr>v_out := A3\<rparr>))))))))))"
  unfolding main_def launch_and_report_def after_args_def Let_def by (rule refl)

lemma trace_setup_kernel_memory [simp]:
  "trace (setup_kernel_memory w s) = trace s @ memory_events (nbytes (SZ s))"
  "SZ (setup_kernel_memory w s) = SZ s"
  by (simp_all add: setup_kernel_memory_def memory_events_def emit_def Let_def)

lemma copy_kernel_args_eq:
  "copy_kernel_args w s =
     (if sint (args_status w) < 0
      then Exited 1 ((after_binding w s)
                       \<lparr>trace := trace s @ arg_events @
                         [Perror ''Couldn't create a kernel argument'',
                          Printf (''Error code = '' @ show_int (sint (args_status w)))]\<rparr>)
      else Continue () (after_binding w s))"
  by (simp add: copy_kernel_args_def after_binding_def bound_kernel_def args_status_def
        arg_events_def emit_def Let_def)

lemma after_binding_fields [simp]:
  "trace (after_binding w s) = trace s @ arg_events"
  "SZ (after_binding w s) = SZ s"
  "v1 (after_binding w s) = v1 s"
  "v2 (after_binding w s) = v2 s"
  "v_out (after_binding w s) = v_out s"
  "bufV1 (after_binding w s) = bufV1 s"
  "bufV2 (after_binding w s) = bufV2 s"
  "bufV_out (after_binding w s) = bufV_out s"
  "kernel (after_binding w s) = bound_kernel w s"
  by (simp_all add: after_binding_def)

lemma store_buffer_frame [simp]:
  "trace (store_buffer name cells s) = trace s"
  "SZ (store_buffer name cells s) = SZ s"
  "v1 (store_buffer name cells s) = v1 s"
  "v2 (store_buffer name cells s) = v2 s"
  "v_out (store_buffer name cells s) = v_out s"
  by (cases name; simp)+

lemma trace_clEnqueueNDRangeKernel [simp]:
  "trace (clEnqueueNDRangeKernel w g s) = trace s @ [EnqueueNDRangeKernel g]"
  "SZ (clEnqueueNDRangeKernel w g s) = SZ s"
  by (simp_all add: clEnqueueNDRangeKernel_def emit_def Let_def split: option.splits prod.splits)

lemma trace_free_memory [simp]:
  "trace (free_memory s) = trace s @ release_events"
  "SZ (free_memory s) = SZ s"
  by (simp_all add: free_memory_def release_events_def emit_def Let_def)

lemma launch_and_report_shape:
  "\<exists>ps. list_all is_printf ps \<and> SZ (final (launch_and_report w g s)) = SZ s \<and>
     ((exit_status (launch_and_report w g s) = None \<and>
       trace (final (launch_and_report w g s)) = trace s @ launch_events g (nbytes (SZ s)) @ ps) \<or>
      (exit_status (launch_and_report w g s) = Some 0 \<and>
       trace (final (launch_and_report w g s)) =
         trace s @ launch_events g (nbytes (SZ s)) @ ps @ [Now, PrintfElapsed] @ release_events))"
proof -
  define s11 where "s11 = emit WaitForEvents (clEnqueueNDRangeKernel w g (emit Now s))"
  define s12 where "s12 = (emit (EnqueueReadBuffer BufV_out True (nbytes (SZ s11))) s11)
                  \<lparr>v_out := clEnqueueReadBuffer w (bufV_out s11) (nbytes (SZ s11)) (v_out s11)\<rparr>"
  have tr12: "trace s12 = trace s @ launch_events g (nbytes (SZ s))" and sz12: "SZ s12 = SZ s"
    by (simp_all add: s12_def s11_def emit_def launch_events_def)
  have unf: "launch_and_report w g s =
      and_then (print (v_out s12) (SZ s12) s12) (\<lambda>u s13. Exited 0 (free_memory (emit PrintfElapsed (emit Now s13))))"
    by (simp add: launch_and_report_def s12_def s11_def Let_def)
  obtain ps where ps: "final (print (v_out s12) (SZ s12) s12) = s12\<lparr>trace := trace s12 @ ps\<rparr>"
    "list_all is_printf ps" "exit_status (print (v_out s12) (SZ s12) s12) = None"
    using print_final by blast
  show ?thesis
  proof (cases "print (v_out s12) (SZ s12) s12")
    case (Continue u s13)
    with ps have "s13 = s12\<lparr>trace := trace s12 @ ps\<rparr>" by simp
    then show ?thesis using ps(2) unfolding unf Continue
      by (intro exI [of _ ps]) (simp add: tr12 sz12 emit_def)
  next
    case (Crashed s13)
    with ps have "s13 = s12\<lparr>trace := trace s12 @ ps\<rparr>" by simp
    then show ?thesis using ps(2) unfolding unf Crashed
      by (intro exI [of _ ps]) (simp add: tr12 sz12 emit_def)
  next
    case (Exited c s13)
    with ps(3) show ?thesis by simp
  qed
qed

lemma tail_shape:
  assumes "list_all early (trace s7)" and "BuildProgram \<in> set (trace s7)"
    and "g = to_size_t (SZ s7)"
  shows "run_shape w (SZ s7) (and_then (copy_kernel_args w (setup_kernel_memory w s7))
                        (\<lambda>u. launch_and_report w g))"
proof (cases "sint (args_status w) < 0")
  case True
  then show ?thesis using assms
    unfolding run_shape_def copy_kernel_args_eq
    by (intro conjI exI [of _ "trace s7"] exI [of _ "[]"]
          exI [of _ "''Error code = '' @ show_int (sint (args_status w))"]) simp_all
next
  case False
  define s8 where "s8 = after_binding w (setup_kernel_memory w s7)"
  have r: "and_then (copy_kernel_args w (setup_kernel_memory w s7)) (\<lambda>u. launch_and_report w g)
            = launch_and_report w g s8"
    using False by (simp add: copy_kernel_args_eq s8_def)
  have s8: "trace s8 = trace s7 @ memory_events (nbytes (SZ s7)) @ arg_events" "SZ s8 = SZ s7"
    by (simp_all add: s8_def)
  from launch_and_report_shape [of w g s8] obtain ps where
    "list_all is_printf ps" "SZ (final (launch_and_report w g s8)) = SZ s8"
    "(exit_status (launch_and_report w g s8) = None \<and>
       trace (final (launch_and_report w g s8)) = trace s8 @ launch_events g (nbytes (SZ s8)) @ ps) \<or>
      (exit_status (launch_and_report w g s8) = Some 0 \<and>
       trace (final (launch_and_report w g s8)) =
         trace s8 @ launch_events g (nbytes (SZ s8)) @ ps @ [Now, PrintfElapsed] @ release_events)"
    by blast
  then show ?thesis using assms False
    unfolding run_shape_def r
    by (intro conjI exI [of _ "trace s7"] exI [of _ ps] exI [of _ "[]"]) (auto simp: s8 Let_def)
qed

lemma shape_and_then:
  assumes "grows early s r" and "list_all early (trace s) \<and> SZ s = sz"
    and "\<And>x s'. r = Continue x s' \<Longrightarrow> list_all early (trace s') \<and> SZ s' = sz \<Longrightarrow>
           run_shape w sz (f x s')"
  shows "run_shape w sz (and_then r f)"
proof (cases r)
  case (Continue x s')
  with assms(1,2) have "list_all early (trace s') \<and> SZ s' = sz"
    by (auto simp: grows_def)
  from assms(3) [OF Continue this] show ?thesis by (simp add: Continue)
next
  case (Exited c s')
  with assms(1,2) have "list_all early (trace s')" "SZ s' = sz" "c \<noteq> 0"
    by (auto simp: grows_def)
  then show ?thesis
    unfolding run_shape_def Exited
    by (intro conjI exI [of _ "trace s'"] exI [of _ "[]"]) auto
next
  case (Crashed s')
  with assms(1,2) have "list_all early (trace s')" "SZ s' = sz"
    by (auto simp: grows_def)
  then show ?thesis
    unfolding run_shape_def Crashed
    by (intro conjI exI [of _ "trace s'"] exI [of _ "[]"]) auto
qed

lemma main_shape: "run_shape w (SZ (after_args argv)) (main w argv)"
  unfolding main_blocks
proof (rule shape_and_then [OF grows_init], goal_cases)
  case 1
  show ?case by (simp add: after_args_def initial_globals_def)
next
  case (2 A1 s1)
  show ?case
  proof (rule shape_and_then [OF grows_init], goal_cases)
    case 1
    show ?case using 2 by simp
  next
    case (2 A2 s2)
    show ?case
    proof (rule shape_and_then [OF grows_init], goal_cases)
      case 1
      show ?case using 2 by simp
    next
      case (2 A3 s3)
      show ?case
      proof (rule shape_and_then [OF grows_print], goal_cases)
        case 1
        show ?case using 2 by simp
      next
        case (2 u5 s5)
        show ?case
        proof (rule shape_and_then [OF grows_print], goal_cases)
          case 1
          show ?case using 2 by simp
        next
          case (2 u6 s6)
          show ?case
          proof (rule shape_and_then [OF grows_setup], goal_cases)
            case 1
            show ?case using 2 by simp
          next
            case (2 u7 s7)
            have "run_shape w (SZ s7) (and_then (copy_kernel_args w (setup_kernel_memory w s7))
                        (\<lambda>u. launch_and_report w (to_size_t (SZ (s3\<lparr>v_out := A3\<rparr>)))))"
              by (rule tail_shape) (use 2 \<open>list_all early (trace s3) \<and> SZ s3 = SZ (after_args argv)\<close>
                    setup_built in auto)
            then show ?case using 2 by simp
          qed
        qed
      qed
    qed
  qed
qed


section \<open>Statuses and sizes\<close>

subsection \<open>Signs of statuses\<close>

lemma sint_or_neg:
  "sint (a OR b) < 0 \<longleftrightarrow> sint a < 0 \<or> sint b < 0" for a b :: cl_int
  by (simp add: bit_last_iff [symmetric] bit_or_iff)

lemma args_status_neg:
  "sint (args_status w) < 0 \<longleftrightarrow>
     sint (arg_err w 0) < 0 \<or> sint (arg_err w 1) < 0 \<or>
     sint (arg_err w 2) < 0 \<or> sint (arg_err w 3) < 0"
  by (simp add: args_status_def sint_or_neg)

lemma early_filter:
  "list_all early pre \<Longrightarrow> (\<And>e. early e \<Longrightarrow> \<not> P e) \<Longrightarrow> filter P pre = []"
  by (induction pre) auto

lemma printf_filter:
  "list_all is_printf ps \<Longrightarrow> (\<And>t. \<not> P (Printf t)) \<Longrightarrow> filter P ps = []"
  by (induction ps) (auto elim: is_printf.elims)

lemma early_not_launch: "early e \<Longrightarrow> \<not> is_launch e"
  by (cases e) auto


subsection \<open>Sizes\<close>

lemma sint_range32: "- 2147483648 \<le> sint n" "sint n < 2147483648" for n :: cl_int
  using sint_ge [of n] sint_lt [of n] by simp_all

lemma unat_size_t_of_int:
  assumes "0 \<le> k" and "k < 18446744073709551616"
  shows "unat (word_of_int k :: size_t) = nat k"
proof -
  have "uint (word_of_int k :: size_t) = k mod 2 ^ 64"
    by (simp add: uint_word_of_int)
  also have "\<dots> = k" using assms by simp
  finally show ?thesis by (simp only: unat_eq_nat_uint)
qed

lemma unat_nbytes:
  assumes "0 \<le> sint n"
  shows "unat (nbytes n) = 4 * nat (sint n)"
proof -
  have lt: "sint n < 2147483648" by (rule sint_range32)
  have "nbytes n = word_of_int (sint n * 4)"
    unfolding nbytes_def to_size_t_def by (simp only: word_of_int_hom_syms) simp
  then have "unat (nbytes n) = nat (sint n * 4)"
    using unat_size_t_of_int [of "sint n * 4"] assms lt by simp
  then show ?thesis using assms by simp
qed

lemma cells_nbytes: "0 \<le> sint n \<Longrightarrow> unat (nbytes n) div 4 = nat (sint n)"
  by (simp add: unat_nbytes)

lemma unat_to_size_t:
  assumes "0 \<le> sint n"
  shows "unat (to_size_t n) = nat (sint n)"
proof -
  have lt: "sint n < 2147483648" by (rule sint_range32)
  show ?thesis
    unfolding to_size_t_def using unat_size_t_of_int [of "sint n"] assms lt by simp
qed


section \<open>Runs in which the checked stages pass\<close>

subsection \<open>Stages that succeed\<close>

lemma rand_array_Suc:
  "rand_array w k (Suc m) = of_nat (rand_seq w k mod 100) # rand_array w (Suc k) m"
  by (simp add: rand_array_def upt_conv_Cons map_Suc_upt [symmetric] del: upt_Suc)

lemma length_rand_array [simp]: "length (rand_array w k n) = n"
  by (simp add: rand_array_def)

lemma init_loop_fills:
  "0 \<le> i \<Longrightarrow> i \<le> N \<Longrightarrow> length xs = nat N \<Longrightarrow>
   init_loop w (Some xs) i N s =
     Continue (Some (take (nat i) xs @ rand_array w (rand_calls s) (nat (N - i))))
       (s\<lparr>rand_calls := rand_calls s + nat (N - i)\<rparr>)"
proof (induction k \<equiv> "nat (N - i)" arbitrary: i xs s)
  case 0
  then have "\<not> i < N" "nat i = length xs" by simp_all
  then show ?case using 0 by (subst init_loop.simps) (simp add: rand_array_def)
next
  case (Suc k)
  then have lt: "i < N" and inb: "nat i < length xs" by linarith+
  let ?r = "of_nat (rand_seq w (rand_calls s) mod 100) :: 32 word"
  let ?xs = "xs[nat i := ?r]"
  let ?s = "s\<lparr>rand_calls := Suc (rand_calls s)\<rparr>"
  have k: "k = nat (N - (i + 1))" using Suc.hyps(2) by linarith
  have eq: "init_loop w (Some xs) i N s = init_loop w (Some ?xs) (i + 1) N ?s"
    using lt inb Suc.prems by (subst init_loop.simps) simp
  have "init_loop w (Some ?xs) (i + 1) N ?s =
        Continue (Some (take (nat (i + 1)) ?xs @ rand_array w (rand_calls ?s) (nat (N - (i + 1)))))
          (?s\<lparr>rand_calls := rand_calls ?s + nat (N - (i + 1))\<rparr>)"
    using Suc.prems lt by (intro Suc.hyps(1) [OF k]) simp_all
  moreover have "take (nat (i + 1)) ?xs = take (nat i) xs @ [?r]"
    using inb Suc.prems(1) by (simp add: nat_add_distrib take_Suc_conv_app_nth)
  moreover have "nat (N - i) = Suc (nat (N - (i + 1)))" using lt by linarith
  ultimately show ?case unfolding eq by (simp add: rand_array_Suc)
qed

lemma init_success:
  assumes "0 \<le> sint n" and "malloc_ok w (nbytes n)"
  shows "init w name n s =
           Continue (Some (rand_array w (rand_calls s) (nat (sint n))))
             (s\<lparr>rand_calls := rand_calls s + nat (sint n),
                trace := trace s @ [Malloc name (nbytes n)]\<rparr>)"
  using assms init_loop_fills [of 0 "sint n" "replicate (nat (sint n)) 0" w "emit (Malloc name (nbytes n)) s"]
  by (simp add: init_def cells_nbytes emit_def Let_def)

lemma init_nothing:
  assumes "sint n \<le> 0"
  shows "init w name n s =
           Continue (if malloc_ok w (nbytes n) then Some (replicate (unat (nbytes n) div 4) 0) else None)
             (s\<lparr>trace := trace s @ [Malloc name (nbytes n)]\<rparr>)"
  using assms by (simp add: init_def Let_def emit_def init_loop.simps)


lemma print_loop_range:
  "0 \<le> i \<Longrightarrow> n \<le> int (length xs) \<Longrightarrow>
   print_loop (Some xs) i n s =
     Continue () (s\<lparr>trace := trace s @ map cell (take (nat n - nat i) (drop (nat i) xs))\<rparr>)"
proof (induction k \<equiv> "nat (n - i)" arbitrary: i s)
  case 0
  then have "\<not> i < n" by simp
  then show ?case by (subst print_loop.simps) simp
next
  case (Suc k)
  then have lt: "i < n" and inb: "nat i < length xs" by linarith+
  have step: "take (nat n - nat i) (drop (nat i) xs) =
              xs ! nat i # take (nat n - nat (i + 1)) (drop (nat (i + 1)) xs)"
  proof -
    have "nat n - nat i = Suc (nat n - nat (i + 1))" using lt Suc.prems by linarith
    moreover have "drop (nat i) xs = xs ! nat i # drop (nat (i + 1)) xs"
      using inb Suc.prems by (simp add: Cons_nth_drop_Suc nat_add_distrib)
    ultimately show ?thesis by simp
  qed
  have "print_loop (Some xs) i n s = print_loop (Some xs) (i + 1) n (emit (cell (xs ! nat i)) s)"
    using lt inb Suc.prems by (subst print_loop.simps) (simp add: cell_def)
  also have "\<dots> = Continue ()
      ((emit (cell (xs ! nat i)) s)\<lparr>trace := trace (emit (cell (xs ! nat i)) s) @
          map cell (take (nat n - nat (i + 1)) (drop (nat (i + 1)) xs))\<rparr>)"
    using Suc.hyps(2) Suc.prems by (intro Suc.hyps(1)) linarith+
  finally show ?case by (simp add: step emit_def)
qed

lemma print_success:
  assumes "0 \<le> sint n" and "length xs = nat (sint n)"
  shows "print (Some xs) n s = Continue () (s\<lparr>trace := trace s @ preview xs\<rparr>)"
proof (cases "sint n > 15")
  case True
  then have len: "length xs > 15" "int (length xs) = sint n" using assms by simp_all
  have a: "print_loop (Some xs) 0 5 s = Continue () (s\<lparr>trace := trace s @ map cell (take 5 xs)\<rparr>)"
    using print_loop_range [of 0 5 xs s] len by simp
  have b: "print_loop (Some xs) (sint n - 5) (sint n) s' =
      Continue () (s'\<lparr>trace := trace s' @ map cell (drop (length xs - 5) xs)\<rparr>)" for s'
  proof -
    have "nat (sint n) - nat (sint n - 5) = 5" "nat (sint n - 5) = length xs - 5"
      using True assms by linarith+
    then show ?thesis
      using print_loop_range [of "sint n - 5" "sint n" xs s'] len True by simp
  qed
  show ?thesis using True len
    by (simp add: print_def PRINT_def a b preview_def emit_def ellipsis_def rule_line_def)
next
  case False
  then have len: "\<not> length xs > 15" "int (length xs) = sint n" using assms by simp_all
  have "print (Some xs) n s =
          and_then (print_loop (Some xs) 0 (sint n) s) (\<lambda>u s2. Continue () (emit rule_line s2))"
    using False by (simp add: print_def PRINT_def rule_line_def)
  also have "print_loop (Some xs) 0 (sint n) s = Continue () (s\<lparr>trace := trace s @ map cell xs\<rparr>)"
    using print_loop_range [of 0 "sint n" xs s] assms by simp
  finally show ?thesis using len(1) by (simp add: preview_def emit_def)
qed

lemma print_nothing:
  assumes "sint n \<le> 0"
  shows "print A n s = Continue () (s\<lparr>trace := trace s @ [rule_line]\<rparr>)"
  using assms by (simp add: print_def PRINT_def print_loop.simps emit_def rule_line_def)

lemma exposes_find: "exposes p ty \<longleftrightarrow> find (\<lambda>d. dev_type d = ty) p \<noteq> None"
  by (auto simp: exposes_def find_None_iff)

lemma clGetDeviceIDs_find:
  "clGetDeviceIDs (Some p) ty =
     (case find (\<lambda>d. dev_type d = ty) p of
        None \<Rightarrow> (CL_DEVICE_NOT_FOUND, None)
      | Some d \<Rightarrow> (CL_SUCCESS, Some d))"
proof -
  have "find P p = (case filter P p of [] \<Rightarrow> None | d # ds \<Rightarrow> Some d)"
    for P :: "cl_device_id \<Rightarrow> bool"
    by (induction p) auto
  then show ?thesis
    by (simp add: clGetDeviceIDs_def split: list.splits)
qed

lemma status_signs [simp]:
  "\<not> sint CL_SUCCESS < 0" "sint CL_DEVICE_NOT_FOUND < 0" "sint CL_PLATFORM_NOT_FOUND_KHR < 0"
  "CL_SUCCESS \<noteq> CL_DEVICE_NOT_FOUND"
  by (simp_all add: CL_SUCCESS_def CL_DEVICE_NOT_FOUND_def CL_PLATFORM_NOT_FOUND_KHR_def)

lemma create_device_success:
  "selected w \<noteq> None \<Longrightarrow>
   create_device w s = Continue (selected w) (s\<lparr>trace := trace s @ device_queries w\<rparr>)"
  by (auto simp add: selected_def selectDevice_def create_device_def clGetPlatformIDs_def
        clGetDeviceIDs_find device_queries_def emit_def Let_def exposes_find
        split: list.splits option.splits)

lemma setup_success:
  "setup_ok w \<Longrightarrow>
   setup_openCL_device_context_queue_kernel w ''./vector_ops.txt'' ''vector_add_ocl'' s =
     Continue () (s\<lparr>device_id := selected w, kernel := Some [None, None, None, None],
                    err := build_err w, trace := trace s @ setup_events w\<rparr>)"
  by (auto simp add: setup_ok_def setup_openCL_device_context_queue_kernel_def
        create_device_success build_program_def clCreateKernel_def setup_events_def emit_def
        Let_def split: option.splits)


subsection \<open>The kernel over its work domain\<close>

lemma length_vector_add_ocl [simp]: "length (vector_add_ocl n a b out gid) = length out"
  by (simp add: vector_add_ocl_def)

lemma length_launch [simp]: "length (foldl (vector_add_ocl n a b) out gids) = length out"
  by (induction gids arbitrary: out) simp_all

lemma launch_nth:
  assumes "length a = N" and "length b = N" and "length out = N" and "k \<le> N" and "i < N"
  shows "foldl (vector_add_ocl n a b) out [0..<k] ! i = (if i < k then a ! i + b ! i else out ! i)"
  using assms(4)
proof (induction k)
  case 0
  show ?case by simp
next
  case (Suc k)
  then have k: "k < N" "k \<le> N" by simp_all
  let ?o = "foldl (vector_add_ocl n a b) out [0..<k]"
  have "foldl (vector_add_ocl n a b) out [0..<Suc k] = ?o[k := a ! k + b ! k]"
    using k assms(1-3) by (simp add: vector_add_ocl_def)
  then show ?case using Suc.IH [OF k(2)] k assms(3,5)
    by (auto simp: nth_list_update less_Suc_eq)
qed

lemma launch_result:
  assumes "length a = N" and "length b = N" and "length out = N"
  shows "foldl (vector_add_ocl n a b) out [0..<N] = map2 (+) a b"
proof (rule nth_equalityI)
  show "length (foldl (vector_add_ocl n a b) out [0..<N]) = length (map2 (+) a b)"
    using assms by simp
next
  fix i assume "i < length (foldl (vector_add_ocl n a b) out [0..<N])"
  then have i: "i < N" using assms by simp
  then show "foldl (vector_add_ocl n a b) out [0..<N] ! i = map2 (+) a b ! i"
    using launch_nth [OF assms order_refl i, of n] assms by simp
qed

subsection \<open>Buffers keep their length\<close>

lemma copy_cells_full [simp]: "length src = n \<Longrightarrow> length dst = n \<Longrightarrow> copy_cells n src dst = src"
  by (simp add: copy_cells_def)

lemma sized_simps [simp]: "sized N None" "sized N (Some xs) \<longleftrightarrow> length xs = N"
  by (simp_all add: sized_def)

lemma sized_create: "0 \<le> sint sz \<Longrightarrow> sized (nat (sint sz)) (clCreateBuffer w name (nbytes sz))"
  by (simp add: clCreateBuffer_def cells_nbytes)

lemma sized_write:
  "0 \<le> sint sz \<Longrightarrow> sized (nat (sint sz)) buf \<Longrightarrow> sized (nat (sint sz)) host \<Longrightarrow>
   sized (nat (sint sz)) (clEnqueueWriteBuffer w name buf (nbytes sz) host)"
  by (auto simp add: clEnqueueWriteBuffer_def cells_nbytes split: option.splits)

lemma sized_read:
  "0 \<le> sint sz \<Longrightarrow> sized (nat (sint sz)) buf \<Longrightarrow> length h = nat (sint sz) \<Longrightarrow>
   \<exists>out. clEnqueueReadBuffer w buf (nbytes sz) (Some h) = Some out \<and> length out = nat (sint sz)"
  by (auto simp add: clEnqueueReadBuffer_def cells_nbytes split: option.splits)

lemma sized_store:
  "buffer name s = Some old \<Longrightarrow> length cells = length old \<Longrightarrow> sized N (bufV_out s) \<Longrightarrow>
   sized N (bufV_out (store_buffer name cells s))"
  by (cases name) auto

lemma sized_launch:
  "sized N (bufV_out s) \<Longrightarrow> sized N (bufV_out (clEnqueueNDRangeKernel w g s))"
proof -
  assume z: "sized N (bufV_out s)"
  let ?s2 = "(emit (EnqueueNDRangeKernel g) s)\<lparr>event_set := True\<rparr>"
  have z2: "sized N (bufV_out ?s2)" using z by (simp add: emit_def)
  have "sized N (bufV_out (store_buffer c (foldl (vector_add_ocl n xa xb) xc [0..<unat g]) ?s2))"
    if "buffer c ?s2 = Some xc" for n c xa xb xc
    using that z2 by (intro sized_store [where old = xc]) simp_all
  then show ?thesis
    using z2 z
    by (auto simp add: clEnqueueNDRangeKernel_def Let_def emit_def
          split: option.splits prod.splits)
qed


subsection \<open>Runs that pass set-up\<close>

lemma after_args_eq: "after_args argv = initial_globals\<lparr>SZ := SZ (after_args argv)\<rparr>"
  by (simp add: after_args_def initial_globals_def)

lemma main_reaches_memory:
  assumes "0 \<le> sint (SZ (after_args argv))"
    and "malloc_ok w (nbytes (SZ (after_args argv)))"
    and "setup_ok w"
  shows "main w argv =
           and_then (copy_kernel_args w (setup_kernel_memory w (ready w (SZ (after_args argv)))))
             (\<lambda>u. launch_and_report w (to_size_t (SZ (after_args argv))))"
proof -
  define sz where "sz = SZ (after_args argv)"
  have s0: "after_args argv = initial_globals\<lparr>SZ := sz\<rparr>"
    unfolding sz_def by (rule after_args_eq)
  have sz: "0 \<le> sint sz" "malloc_ok w (nbytes sz)" using assms by (simp_all add: sz_def)
  have r0: "rand_calls initial_globals = 0" "trace initial_globals = []"
    by (simp_all add: initial_globals_def)
  show ?thesis
    unfolding main_blocks sz_def [symmetric] s0
    by (simp add: init_success [OF sz] print_success [OF sz(1)] setup_success [OF assms(3)]
          ready_def host_events_def input_a_def input_b_def first_out_def r0)
       (simp add: initial_globals_def)
qed


lemma ready_fields [simp]:
  "SZ (ready w sz) = sz"
  "kernel (ready w sz) = Some [None, None, None, None]"
  "v1 (ready w sz) = Some (input_a w sz)"
  "v2 (ready w sz) = Some (input_b w sz)"
  "v_out (ready w sz) = Some (first_out w sz)"
  "trace (ready w sz) = host_events w sz @ setup_events w"
  by (simp_all add: ready_def)

lemma length_inputs [simp]:
  "length (input_a w sz) = nat (sint sz)"
  "length (input_b w sz) = nat (sint sz)"
  "length (first_out w sz) = nat (sint sz)"
  by (simp_all add: input_a_def input_b_def first_out_def)

lemma setup_kernel_memory_frame [simp]:
  "kernel (setup_kernel_memory w s) = kernel s"
  "v1 (setup_kernel_memory w s) = v1 s"
  "v2 (setup_kernel_memory w s) = v2 s"
  "v_out (setup_kernel_memory w s) = v_out s"
  by (simp_all add: setup_kernel_memory_def emit_def Let_def)

lemma setup_kernel_memory_sized:
  "0 \<le> sint (SZ s) \<Longrightarrow> sized (nat (sint (SZ s))) (bufV_out (setup_kernel_memory w s))"
  by (simp add: setup_kernel_memory_def emit_def Let_def sized_create)

lemma setup_kernel_memory_buffers:
  assumes "0 \<le> sint (SZ s)" and "transfers_ok w"
    and "v1 s = Some a" and "length a = nat (sint (SZ s))"
    and "v2 s = Some b" and "length b = nat (sint (SZ s))"
  shows "bufV1 (setup_kernel_memory w s) = Some a"
    and "bufV2 (setup_kernel_memory w s) = Some b"
    and "\<exists>c. bufV_out (setup_kernel_memory w s) = Some c \<and> length c = nat (sint (SZ s))"
  using assms
  by (simp_all add: setup_kernel_memory_def emit_def Let_def transfers_ok_def
        clCreateBuffer_def clEnqueueWriteBuffer_def cells_nbytes)

lemma clEnqueueNDRangeKernel_frame [simp]:
  "v1 (clEnqueueNDRangeKernel w g s) = v1 s"
  "v2 (clEnqueueNDRangeKernel w g s) = v2 s"
  "v_out (clEnqueueNDRangeKernel w g s) = v_out s"
  by (simp_all add: clEnqueueNDRangeKernel_def emit_def Let_def
        split: option.splits prod.splits)

lemma bound_kernel_all:
  assumes "kernel s = Some [None, None, None, None]"
    and "\<not> sint (args_status w) < 0"
    and "bufV1 s = Some a" and "bufV2 s = Some b" and "bufV_out s = Some c"
  shows "bound_kernel w s =
           Some [Some (ArgInt (SZ s)), Some (ArgMem (Some BufV1)),
                 Some (ArgMem (Some BufV2)), Some (ArgMem (Some BufV_out))]"
  using assms
  by (simp add: bound_kernel_def clSetKernelArg_def mem_handle_def args_status_neg)

lemma clEnqueueNDRangeKernel_adds:
  assumes "\<not> sint (enqueue_err w) < 0"
    and "kernel s = Some [Some (ArgInt n), Some (ArgMem (Some BufV1)),
                          Some (ArgMem (Some BufV2)), Some (ArgMem (Some BufV_out))]"
    and "bufV1 s = Some a" and "bufV2 s = Some b" and "bufV_out s = Some c"
    and "length a = N" and "length b = N" and "length c = N" and "unat g = N"
  shows "bufV_out (clEnqueueNDRangeKernel w g s) = Some (map2 (+) a b)"
  using assms launch_result [of a N b c n]
  by (simp add: clEnqueueNDRangeKernel_def launch_operands_def emit_def Let_def)

lemma launch_needs_kernel:
  "kernel s = None \<Longrightarrow> bufV_out (clEnqueueNDRangeKernel w g s) = bufV_out s"
  by (simp add: clEnqueueNDRangeKernel_def emit_def Let_def)

lemma launch_needs_binding:
  "kernel s = Some slots \<Longrightarrow> None \<in> set slots \<Longrightarrow>
   bufV_out (clEnqueueNDRangeKernel w g s) = bufV_out s"
proof -
  assume k: "kernel s = Some slots" and n: "None \<in> set slots"
  have "launch_operands slots = None"
  proof (cases "length slots = 4")
    case True
    then obtain x0 x1 x2 x3 where slots: "slots = [x0, x1, x2, x3]"
      by (auto simp: numeral_eq_Suc length_Suc_conv)
    with n show ?thesis
      by (auto simp: launch_operands_def numeral_eq_Suc split: option.splits)
  qed (simp add: launch_operands_def)
  with k show ?thesis
    by (simp add: clEnqueueNDRangeKernel_def emit_def Let_def)
qed

lemma free_memory_frame [simp]:
  "v1 (free_memory s) = v1 s"
  "v2 (free_memory s) = v2 s"
  "v_out (free_memory s) = v_out s"
  by (simp_all add: free_memory_def emit_def Let_def)

lemma main_stops_at_args:
  assumes "0 \<le> sint (SZ (after_args argv))"
    and "malloc_ok w (nbytes (SZ (after_args argv)))"
    and "setup_ok w"
    and "sint (args_status w) < 0"
  shows "exit_status (main w argv) = Some 1"
    and "trace (final (main w argv)) =
           host_events w (SZ (after_args argv)) @ setup_events w @
           memory_events (nbytes (SZ (after_args argv))) @ arg_events @
           [Perror ''Couldn't create a kernel argument'',
            Printf (''Error code = '' @ show_int (sint (args_status w)))]"
  using assms(4) by (simp_all add: main_reaches_memory [OF assms(1-3)] copy_kernel_args_eq)

lemma main_completes:
  assumes "0 \<le> sint (SZ (after_args argv))"
    and "malloc_ok w (nbytes (SZ (after_args argv)))"
    and "setup_ok w"
    and "\<not> sint (args_status w) < 0"
  shows "\<exists>out s.
           main w argv = Exited 0 s \<and> SZ s = SZ (after_args argv) \<and>
           v1 s = Some (input_a w (SZ (after_args argv))) \<and>
           v2 s = Some (input_b w (SZ (after_args argv))) \<and>
           v_out s = Some out \<and> length out = nat (sint (SZ (after_args argv))) \<and>
           trace s =
             host_events w (SZ (after_args argv)) @ setup_events w @
             memory_events (nbytes (SZ (after_args argv))) @ arg_events @
             launch_events (to_size_t (SZ (after_args argv))) (nbytes (SZ (after_args argv))) @
             preview out @ [Now, PrintfElapsed] @ release_events \<and>
           (transfers_ok w \<longrightarrow>
              out = map2 (+) (input_a w (SZ (after_args argv))) (input_b w (SZ (after_args argv))))"
proof -
  define sz where "sz = SZ (after_args argv)"
  define N where "N = nat (sint sz)"
  define g where "g = to_size_t sz"
  define s7 where "s7 = setup_kernel_memory w (ready w sz)"
  define s8 where "s8 = after_binding w s7"
  define s10 where "s10 = clEnqueueNDRangeKernel w g (emit Now s8)"
  define s11 where "s11 = emit WaitForEvents s10"
  have sz: "0 \<le> sint sz" using assms(1) by (simp add: sz_def)
  have run: "main w argv = launch_and_report w g s8"
    using assms(4) main_reaches_memory [OF assms(1-3)]
    by (simp add: copy_kernel_args_eq s8_def s7_def sz_def g_def)
  have g: "unat g = N" using sz by (simp add: g_def N_def unat_to_size_t)
  have f8: "SZ s8 = sz" "v1 s8 = Some (input_a w sz)" "v2 s8 = Some (input_b w sz)"
    "v_out s8 = Some (first_out w sz)"
    "trace s8 = host_events w sz @ setup_events w @ memory_events (nbytes sz) @ arg_events"
    by (simp_all add: s8_def s7_def)
  have z8: "sized N (bufV_out s8)"
    using setup_kernel_memory_sized [of "ready w sz" w] sz by (simp add: s8_def s7_def N_def)
  have f11: "SZ s11 = sz" "v1 s11 = Some (input_a w sz)" "v2 s11 = Some (input_b w sz)"
    "v_out s11 = Some (first_out w sz)"
    "trace s11 = trace s8 @ [Now, EnqueueNDRangeKernel g, WaitForEvents]"
    by (simp_all add: s11_def s10_def f8 emit_def)
  have z11: "sized N (bufV_out s11)"
    using sized_launch [of N "emit Now s8" w g] z8 by (simp add: s11_def s10_def emit_def)
  obtain out where out: "clEnqueueReadBuffer w (bufV_out s11) (nbytes sz) (Some (first_out w sz)) = Some out"
    "length out = N"
    using sized_read [OF sz, of "bufV_out s11" "first_out w sz" w] z11 by (auto simp: N_def)
  define s12 where "s12 = (emit (EnqueueReadBuffer BufV_out True (nbytes sz)) s11)\<lparr>v_out := Some out\<rparr>"
  have f12: "SZ s12 = sz" "v_out s12 = Some out"
    "trace s12 = trace s8 @ launch_events g (nbytes sz)"
    by (simp_all add: s12_def f11 emit_def launch_events_def)
  have pr: "print (Some out) sz s12 = Continue () (s12\<lparr>trace := trace s12 @ preview out\<rparr>)"
    using print_success [OF sz, of out s12] out(2) by (simp add: N_def)
  define sF where "sF = free_memory (emit PrintfElapsed (emit Now (s12\<lparr>trace := trace s12 @ preview out\<rparr>)))"
  have fin: "launch_and_report w g s8 = Exited 0 sF"
    unfolding launch_and_report_def Let_def s10_def [symmetric] s11_def [symmetric]
    by (simp add: f11 out(1) s12_def [symmetric] f12 pr sF_def)
  have fF: "SZ sF = sz" "v1 sF = Some (input_a w sz)" "v2 sF = Some (input_b w sz)"
    "v_out sF = Some out"
    "trace sF = trace s8 @ launch_events g (nbytes sz) @ preview out @ [Now, PrintfElapsed] @ release_events"
    by (simp_all add: sF_def f12 emit_def s12_def f11 launch_events_def)
  have sum: "out = map2 (+) (input_a w sz) (input_b w sz)" if ok: "transfers_ok w"
  proof -
    from setup_kernel_memory_buffers [of "ready w sz" w "input_a w sz" "input_b w sz"] sz ok
    obtain c where b7: "bufV1 s7 = Some (input_a w sz)" "bufV2 s7 = Some (input_b w sz)"
      "bufV_out s7 = Some c" "length c = N"
      by (auto simp: s7_def N_def)
    have k7: "kernel s7 = Some [None, None, None, None]" by (simp add: s7_def)
    have k8: "kernel s8 = Some [Some (ArgInt sz), Some (ArgMem (Some BufV1)),
                                Some (ArgMem (Some BufV2)), Some (ArgMem (Some BufV_out))]"
      using bound_kernel_all [OF k7 assms(4) b7(1-3)] by (simp add: s8_def s7_def)
    have "bufV_out s10 = Some (map2 (+) (input_a w sz) (input_b w sz))"
      unfolding s10_def
      by (rule clEnqueueNDRangeKernel_adds [where c = c and N = N and n = sz])
         (use ok b7 g k8 in \<open>simp_all add: transfers_ok_def s8_def emit_def N_def\<close>)
    then have "bufV_out s11 = Some (map2 (+) (input_a w sz) (input_b w sz))"
      by (simp add: s11_def emit_def)
    with out(1) ok sz show ?thesis
      by (simp add: clEnqueueReadBuffer_def transfers_ok_def cells_nbytes)
  qed
  show ?thesis
    unfolding sz_def [symmetric] g_def [symmetric] run fin
    using fF out(2) sum by (auto simp: f8 N_def g_def)
qed


section \<open>Facts about runs used by the claims\<close>

subsection \<open>Reading the shapes\<close>

lemma early_not_queue_op: "early e \<Longrightarrow> \<not> is_queue_op e"
  by (cases e) auto

lemma early_not_release: "early e \<Longrightarrow> \<not> is_release e"
  by (cases e) auto

lemma early_not_create_buffer: "early e \<Longrightarrow> \<not> is_create_buffer e"
  by (cases e) auto

lemma early_not_buffer_life: "early e \<Longrightarrow> \<not> buffer_life e"
  by (cases e) (auto simp: buffer_life_def)

lemma hazard_free_filter: "hazard_free busy tr = hazard_free busy (filter is_queue_op tr)"
proof (induction tr arbitrary: busy)
  case Nil
  show ?case by simp
next
  case (Cons e tr)
  then show ?case by (cases e) simp_all
qed

lemma shape_cases:
  obtains (stopped) pre where "list_all early pre" "trace (final (main w argv)) = pre"
      "exit_status (main w argv) \<noteq> Some 0"
  | (args) pre out where "list_all early pre" "BuildProgram \<in> set pre"
      "sint (args_status w) < 0" "exit_status (main w argv) = Some 1"
      "trace (final (main w argv)) =
         pre @ memory_events (nbytes (SZ (after_args argv))) @ arg_events @
         [Perror ''Couldn't create a kernel argument'', Printf out]"
  | (crashed) pre ps where "list_all early pre" "BuildProgram \<in> set pre" "list_all is_printf ps"
      "exit_status (main w argv) = None"
      "trace (final (main w argv)) =
         pre @ memory_events (nbytes (SZ (after_args argv))) @ arg_events @
         launch_events (to_size_t (SZ (after_args argv))) (nbytes (SZ (after_args argv))) @ ps"
  | (completed) pre ps where "list_all early pre" "BuildProgram \<in> set pre" "list_all is_printf ps"
      "exit_status (main w argv) = Some 0"
      "trace (final (main w argv)) =
         pre @ memory_events (nbytes (SZ (after_args argv))) @ arg_events @
         launch_events (to_size_t (SZ (after_args argv))) (nbytes (SZ (after_args argv))) @ ps @
         [Now, PrintfElapsed] @ release_events"
  using main_shape [of w argv] unfolding run_shape_def Let_def by blast

lemma main_keeps_count: "SZ (final (main w argv)) = SZ (after_args argv)"
  using main_shape [of w argv] by (simp add: run_shape_def)


subsection \<open>Small sums\<close>

lemma sint_small: "n < 200 \<Longrightarrow> sint (of_nat n :: 32 word) = int n"
  by (simp add: signed_of_nat signed_take_bit_int_eq_self)

lemma sint_sum_small:
  "sint (of_nat (x mod 100) + of_nat (y mod 100) :: 32 word) =
     sint (of_nat (x mod 100) :: 32 word) + sint (of_nat (y mod 100) :: 32 word)"
proof -
  have "x mod 100 + y mod 100 < 200" by (simp add: add_strict_mono)
  then have "sint (of_nat (x mod 100 + y mod 100) :: 32 word) = int (x mod 100 + y mod 100)"
    by (rule sint_small)
  then show ?thesis by (simp add: sint_small)
qed

lemma rand_array_nth: "i < n \<Longrightarrow> rand_array w k n ! i = of_nat (rand_seq w (k + i) mod 100)"
  by (simp add: rand_array_def)

subsection \<open>The sample machine\<close>

lemma sample_count: "SZ (after_args two_elements) = 2"
  by code_simp

lemma sample_ok:
  "malloc_ok sample_world 8" "setup_ok sample_world" "\<not> sint (args_status sample_world) < 0"
  "transfers_ok sample_world"
  by code_simp+

lemma sample_sizes: "nbytes 2 = 8" "to_size_t 2 = 2"
  by (simp_all add: nbytes_def to_size_t_def)

lemma sample_inputs:
  "input_a sample_world 2 = [3, 10]" "input_b sample_world 2 = [17, 24]"
  by code_simp+


subsection \<open>The clock\<close>

lemma timed_between:
  assumes "Now \<notin> set pre" and "Now \<notin> set mid"
  shows "timed (pre @ Now # mid @ Now # post) = mid"
proof -
  have "dropWhile (\<lambda>e. e \<noteq> Now) (pre @ Now # mid @ Now # post) = Now # mid @ Now # post"
    using assms(1) by (auto simp add: dropWhile_append3)
  moreover have "takeWhile (\<lambda>e. e \<noteq> Now) (mid @ Now # post) = mid"
    using assms(2) by (auto simp add: takeWhile_tail)
  ultimately show ?thesis by (simp add: timed_def)
qed

lemma preview_printf: "list_all is_printf (preview xs)"
  by (auto simp add: preview_def cell_def ellipsis_def rule_line_def list_all_iff)

lemma early_preview: "list_all early (preview xs)"
  using preview_printf by (rule list_all_mono_early)

lemma early_setup_events: "list_all early (setup_events w)"
  by (simp add: setup_events_def device_queries_def split: list.splits)

lemma early_host_events: "list_all early (host_events w sz)"
  by (simp add: host_events_def early_preview)

lemma early_not_now: "early e \<Longrightarrow> e \<noteq> Now"
  by (cases e) auto

lemma no_clock_early: "list_all early es \<Longrightarrow> Now \<notin> set es"
  using early_not_now by (auto simp: list_all_iff)

lemma timed_completes:
  assumes "0 \<le> sint (SZ (after_args argv))"
    and "malloc_ok w (nbytes (SZ (after_args argv)))"
    and "setup_ok w"
    and "\<not> sint (args_status w) < 0"
  shows "\<exists>out. v_out (final (main w argv)) = Some out \<and>
           (transfers_ok w \<longrightarrow>
              out = map2 (+) (input_a w (SZ (after_args argv))) (input_b w (SZ (after_args argv)))) \<and>
           exit_status (main w argv) = Some 0 \<and>
           timed (trace (final (main w argv))) =
             [EnqueueNDRangeKernel (to_size_t (SZ (after_args argv))), WaitForEvents,
              EnqueueReadBuffer BufV_out True (nbytes (SZ (after_args argv)))] @ preview out"
proof -
  let ?sz = "SZ (after_args argv)"
  let ?pre = "host_events w ?sz @ setup_events w @ memory_events (nbytes ?sz) @ arg_events"
  from main_completes [OF assms]
  obtain out s where run: "main w argv = Exited 0 s" and out: "v_out s = Some out"
    and sum: "transfers_ok w \<longrightarrow> out = map2 (+) (input_a w ?sz) (input_b w ?sz)"
    and tr: "trace s = host_events w ?sz @ setup_events w @ memory_events (nbytes ?sz) @
       arg_events @ launch_events (to_size_t ?sz) (nbytes ?sz) @ preview out @
       [Now, PrintfElapsed] @ release_events"
    by blast
  let ?mid = "[EnqueueNDRangeKernel (to_size_t ?sz), WaitForEvents,
               EnqueueReadBuffer BufV_out True (nbytes ?sz)] @ preview out"
  have "Now \<notin> set ?pre"
    using no_clock_early [OF early_host_events] no_clock_early [OF early_setup_events]
    by (simp add: memory_events_def arg_events_def)
  moreover have "Now \<notin> set ?mid"
    using no_clock_early [OF early_preview] by simp
  moreover have "trace s = ?pre @ Now # ?mid @ Now # (PrintfElapsed # release_events)"
    by (simp add: tr launch_events_def)
  ultimately have "timed (trace s) = ?mid"
    using timed_between [of ?pre ?mid "PrintfElapsed # release_events"] by simp
  then show ?thesis using run out sum by simp
qed

lemma sample_previews:
  "preview [20, 34] = [Printf ''20 '', Printf ''34 '', rule_line]"
  by code_simp


subsection \<open>Runs that complete\<close>

lemma early_not_perror_filter:
  "list_all is_printf ps \<Longrightarrow> filter is_perror ps = []"
  by (rule printf_filter) simp_all

lemma quiet_setup_events: "filter is_perror (setup_events w) = []"
  by (simp add: setup_events_def device_queries_def split: list.splits)

lemma quiet_host_events: "filter is_perror (host_events w sz) = []"
  by (simp add: host_events_def early_not_perror_filter preview_printf)

lemma completes_quietly:
  assumes "0 \<le> sint (SZ (after_args argv))"
    and "malloc_ok w (nbytes (SZ (after_args argv)))"
    and "setup_ok w"
    and "\<not> sint (args_status w) < 0"
  shows "exit_status (main w argv) = Some 0"
    and "filter is_perror (trace (final (main w argv))) = []"
    and "filter is_queue_op (trace (final (main w argv))) =
           uploads (nbytes (SZ (after_args argv))) @
           [EnqueueNDRangeKernel (to_size_t (SZ (after_args argv))), WaitForEvents,
            EnqueueReadBuffer BufV_out True (nbytes (SZ (after_args argv)))]"
proof -
  let ?sz = "SZ (after_args argv)"
  from main_completes [OF assms]
  obtain out s where run: "main w argv = Exited 0 s"
    and tr: "trace s = host_events w ?sz @ setup_events w @ memory_events (nbytes ?sz) @
       arg_events @ launch_events (to_size_t ?sz) (nbytes ?sz) @ preview out @
       [Now, PrintfElapsed] @ release_events"
    by blast
  show "exit_status (main w argv) = Some 0" by (simp add: run)
  show "filter is_perror (trace (final (main w argv))) = []"
    by (simp add: run tr quiet_setup_events quiet_host_events early_not_perror_filter
          preview_printf memory_events_def arg_events_def launch_events_def release_events_def)
  have q: "filter is_queue_op (preview xs) = []" for xs
    using preview_printf by (rule printf_filter) simp
  have "filter is_queue_op (host_events w ?sz) = []" "filter is_queue_op (setup_events w) = []"
    using early_filter [OF early_host_events early_not_queue_op]
      early_filter [OF early_setup_events early_not_queue_op] by simp_all
  then show "filter is_queue_op (trace (final (main w argv))) =
           uploads (nbytes ?sz) @
           [EnqueueNDRangeKernel (to_size_t ?sz), WaitForEvents,
            EnqueueReadBuffer BufV_out True (nbytes ?sz)]"
    by (simp add: run tr q memory_events_def arg_events_def launch_events_def
          release_events_def uploads_def)
qed

lemma unchecked_worlds_ok:
  "malloc_ok no_buffers_world 8" "setup_ok no_buffers_world"
  "\<not> sint (args_status no_buffers_world) < 0"
  "malloc_ok no_transfer_world 8" "setup_ok no_transfer_world"
  "\<not> sint (args_status no_transfer_world) < 0"
  "malloc_ok no_launch_world 8" "setup_ok no_launch_world"
  "\<not> sint (args_status no_launch_world) < 0"
  by code_simp+

lemma unchecked_worlds_fail:
  "sint (buffer_err no_buffers_world BufV1) < 0"
  "sint (write_err no_transfer_world BufV1) < 0"
  "sint (read_err no_transfer_world) < 0"
  "sint (enqueue_err no_launch_world) < 0"
  by code_simp+


subsection \<open>Device selection\<close>

lemma find_SomeD: "find P xs = Some x \<Longrightarrow> x \<in> set xs \<and> P x"
  by (induction xs) (auto split: if_splits)

lemma selectDevice_Inr:
  assumes "selectDevice ps = Inr d"
  shows "\<exists>p rest. ps = p # rest \<and> d \<in> set p \<and>
     dev_type d = (if exposes p CL_DEVICE_TYPE_GPU then CL_DEVICE_TYPE_GPU else CL_DEVICE_TYPE_CPU)"
proof (cases ps)
  case Nil
  with assms show ?thesis by (simp add: selectDevice_def)
next
  case (Cons p rest)
  show ?thesis
  proof (cases "find (\<lambda>d. dev_type d = CL_DEVICE_TYPE_GPU) p")
    case None
    with assms Cons have "find (\<lambda>d. dev_type d = CL_DEVICE_TYPE_CPU) p = Some d"
      by (simp add: selectDevice_def split: option.splits)
    from find_SomeD [OF this] None Cons show ?thesis by (simp add: exposes_find)
  next
    case (Some d')
    with assms Cons have "d' = d" by (simp add: selectDevice_def)
    with find_SomeD [OF Some] Some Cons show ?thesis by (simp add: exposes_find)
  qed
qed

lemma create_device_refines:
  "(case selectDevice (platforms w) of
      Inr d \<Rightarrow> returned (create_device w s) = Some (Some d)
    | Inl PlatformNotFound \<Rightarrow>
        create_device w s =
          Exited 1 (emit (Perror ''Couldn't identify a platform'') (emit GetPlatformIDs s))
    | Inl DeviceNotFound \<Rightarrow>
        exit_status (create_device w s) = Some 1 \<and>
        last (trace (final (create_device w s))) = Perror ''Couldn't access any devices'')"
  by (simp add: selectDevice_def create_device_def clGetPlatformIDs_def clGetDeviceIDs_find
        emit_def Let_def split: list.splits option.splits)


lemma bad_arg_ok:
  "malloc_ok bad_arg_world 8" "setup_ok bad_arg_world" "sint (args_status bad_arg_world) < 0"
  "sint (arg_err bad_arg_world 2) < 0"
  by code_simp+

lemma bad_arg_run:
  "exit_status (main bad_arg_world two_elements) = Some 1"
  "trace (final (main bad_arg_world two_elements)) =
     host_events bad_arg_world 2 @ setup_events bad_arg_world @ memory_events 8 @ arg_events @
     [Perror ''Couldn't create a kernel argument'',
      Printf (''Error code = '' @ show_int (sint (args_status bad_arg_world)))]"
proof -
  have h: "0 \<le> sint (SZ (after_args two_elements))"
    "malloc_ok bad_arg_world (nbytes (SZ (after_args two_elements)))"
    by (simp_all add: sample_count sample_sizes bad_arg_ok)
  from main_stops_at_args [OF h bad_arg_ok(2,3)]
  show "exit_status (main bad_arg_world two_elements) = Some 1"
    and "trace (final (main bad_arg_world two_elements)) =
     host_events bad_arg_world 2 @ setup_events bad_arg_world @ memory_events 8 @ arg_events @
     [Perror ''Couldn't create a kernel argument'',
      Printf (''Error code = '' @ show_int (sint (args_status bad_arg_world)))]"
    by (simp_all add: sample_count sample_sizes)
qed


subsection \<open>A failed build is reported\<close>

lemma host_not_build: "host_event e \<Longrightarrow> e \<noteq> BuildProgram"
  by (cases e) auto

lemma printf_host: "list_all is_printf es \<Longrightarrow> list_all host_event es"
  by (induction es) (auto elim: is_printf.elims)

lemma grows_init_host: "grows host_event s (init w name n s)"
proof -
  let ?s1 = "emit (Malloc name (nbytes n)) s"
  obtain A where r: "init w name n s = init_loop w A 0 (sint n) ?s1"
    by (simp add: init_def Let_def)
  obtain k where "final (init_loop w A 0 (sint n) ?s1) = ?s1\<lparr>rand_calls := k\<rparr>"
    and "exit_status (init_loop w A 0 (sint n) ?s1) = None"
    using init_loop_final by blast
  then show ?thesis
    unfolding grows_def r by (simp add: emit_def)
qed

lemma grows_print_host: "grows host_event s (print A n s)"
proof -
  obtain es where "final (print A n s) = s\<lparr>trace := trace s @ es\<rparr>" "list_all is_printf es"
    "exit_status (print A n s) = None" using print_final by blast
  then show ?thesis by (simp add: grows_def printf_host)
qed

lemma c_string_log: "NUL \<notin> set l \<Longrightarrow> c_string (l @ [NUL] @ [NUL]) = l"
  by (auto simp add: c_string_def takeWhile_tail)

lemma no_build_create_device:
  "BuildProgram \<notin> set (trace s) \<Longrightarrow> BuildProgram \<notin> set (trace (final (create_device w s)))"
  by (simp add: create_device_def emit_def Let_def split: prod.splits)

lemma build_program_reports:
  assumes "sint (build_err w) < 0"
    and "malloc_ok w (of_nat (length (build_log w)) + 1 + 1)"
    and "NUL \<notin> set (build_log w)"
    and "BuildProgram \<notin> set (trace s)"
  shows "returned (build_program w f s) = None \<and> build_reported w (build_program w f s)"
proof -
  have "BuildProgram \<notin> set (trace s @ [Fopen f, CreateProgramWithSource])"
    using assms(4) by simp
  moreover have "trace s @ [Fopen f, CreateProgramWithSource, BuildProgram, GetProgramBuildInfo,
       GetProgramBuildInfo, Printf (build_log w @ [CHR 0x0A])] =
      (trace s @ [Fopen f, CreateProgramWithSource]) @ log_report w"
    by (simp add: log_report_def)
  ultimately have "\<exists>pre. BuildProgram \<notin> set pre \<and>
      trace s @ [Fopen f, CreateProgramWithSource, BuildProgram, GetProgramBuildInfo,
       GetProgramBuildInfo, Printf (build_log w @ [CHR 0x0A])] = pre @ log_report w"
    by blast
  then show ?thesis
    using assms c_string_log [OF assms(3)]
    by (auto simp add: build_program_def build_reported_def emit_def Let_def
          split: option.splits)
qed

lemma setup_reports:
  assumes "sint (build_err w) < 0"
    and "malloc_ok w (of_nat (length (build_log w)) + 1 + 1)"
    and "NUL \<notin> set (build_log w)"
    and "BuildProgram \<notin> set (trace s)"
  shows "returned (setup_openCL_device_context_queue_kernel w f k s) = None \<and>
         build_reported w (setup_openCL_device_context_queue_kernel w f k s)"
proof (cases "create_device w s")
  case (Continue dev s0)
  have nb: "BuildProgram \<notin> set (trace s0)"
    using no_build_create_device [OF assms(4), of w] Continue by simp
  show ?thesis
  proof (cases "sint (context_err w) < 0")
    case True
    then show ?thesis using nb Continue
      by (simp add: setup_openCL_device_context_queue_kernel_def build_reported_def emit_def)
  next
    case False
    let ?s1 = "emit CreateContext (s0\<lparr>device_id := dev\<rparr>)"
    have "BuildProgram \<notin> set (trace ?s1)" using nb by (simp add: emit_def)
    from build_program_reports [OF assms(1-3) this, of f]
    have b: "returned (build_program w f ?s1) = None" "build_reported w (build_program w f ?s1)"
      by simp_all
    then show ?thesis using False Continue
      by (cases "build_program w f ?s1")
         (simp_all add: setup_openCL_device_context_queue_kernel_def build_reported_def)
  qed
next
  case (Exited c s')
  then show ?thesis using no_build_create_device [OF assms(4), of w]
    by (simp add: setup_openCL_device_context_queue_kernel_def build_reported_def)
next
  case (Crashed s')
  then show ?thesis using no_build_create_device [OF assms(4), of w]
    by (simp add: setup_openCL_device_context_queue_kernel_def build_reported_def)
qed

lemma reported_and_then:
  assumes "grows host_event s r" and "BuildProgram \<notin> set (trace s)"
    and "\<And>x s'. r = Continue x s' \<Longrightarrow> BuildProgram \<notin> set (trace s') \<Longrightarrow>
           build_reported w (f x s')"
  shows "build_reported w (and_then r f)"
proof -
  from assms(1) obtain es where es: "trace (final r) = trace s @ es" "list_all host_event es"
    by (auto simp: grows_def)
  then have nb: "BuildProgram \<notin> set (trace (final r))"
    using assms(2) host_not_build by (auto simp: list_all_iff)
  show ?thesis
  proof (cases r)
    case (Continue x s')
    with nb assms(3) show ?thesis by simp
  qed (use nb in \<open>auto simp: build_reported_def\<close>)
qed

lemma reported_stop:
  "returned r = None \<Longrightarrow> build_reported w r \<Longrightarrow> build_reported w (and_then r f)"
  by (cases r) (simp_all add: build_reported_def)

lemma main_reports_build:
  assumes "sint (build_err w) < 0"
    and "malloc_ok w (of_nat (length (build_log w)) + 1 + 1)"
    and "NUL \<notin> set (build_log w)"
  shows "build_reported w (main w argv)"
  unfolding main_blocks
proof (rule reported_and_then [OF grows_init_host], goal_cases)
  case 1
  show ?case by (simp add: after_args_def initial_globals_def)
next
  case (2 A1 s1)
  show ?case
  proof (rule reported_and_then [OF grows_init_host], goal_cases)
    case 1
    show ?case using 2 by simp
  next
    case (2 A2 s2)
    show ?case
    proof (rule reported_and_then [OF grows_init_host], goal_cases)
      case 1
      show ?case using 2 by simp
    next
      case (2 A3 s3)
      show ?case
      proof (rule reported_and_then [OF grows_print_host], goal_cases)
        case 1
        show ?case using 2 by simp
      next
        case (2 u5 s5)
        show ?case
        proof (rule reported_and_then [OF grows_print_host], goal_cases)
          case 1
          show ?case using 2 by simp
        next
          case (2 u6 s6)
          from setup_reports [OF assms this(2)]
          show ?case by (intro reported_stop) simp_all
        qed
      qed
    qed
  qed
qed


lemma main_stops_at_build:
  assumes "0 \<le> sint (SZ (after_args argv))"
    and "malloc_ok w (nbytes (SZ (after_args argv)))"
    and "selected w \<noteq> None"
    and "\<not> sint (context_err w) < 0"
    and "program_file w ''./vector_ops.txt'' = Some source"
    and "malloc_ok w (of_nat (length source) + 1)"
    and "\<not> sint (program_err w) < 0"
    and "sint (build_err w) < 0"
    and "malloc_ok w (of_nat (length (build_log w)) + 1 + 1)"
    and "NUL \<notin> set (build_log w)"
  shows "trace (final (main w argv)) =
           host_events w (SZ (after_args argv)) @ device_queries w @
           [CreateContext, Fopen ''./vector_ops.txt'', CreateProgramWithSource] @ log_report w"
proof -
  define sz where "sz = SZ (after_args argv)"
  have s0: "after_args argv = initial_globals\<lparr>SZ := sz\<rparr>"
    unfolding sz_def by (rule after_args_eq)
  have sz: "0 \<le> sint sz" "malloc_ok w (nbytes sz)" using assms by (simp_all add: sz_def)
  have r0: "rand_calls initial_globals = 0" "trace initial_globals = []"
    by (simp_all add: initial_globals_def)
  show ?thesis
    unfolding main_blocks sz_def [symmetric] s0
    using assms(4-10) c_string_log [OF assms(10)]
    by (simp add: init_success [OF sz] print_success [OF sz(1)]
          setup_openCL_device_context_queue_kernel_def create_device_success [OF assms(3)]
          build_program_def log_report_def emit_def Let_def
          host_events_def input_a_def input_b_def r0)
qed

lemma broken_kernel_facts:
  "malloc_ok broken_kernel_world 8"
  "selected broken_kernel_world \<noteq> None"
  "\<not> sint (context_err broken_kernel_world) < 0"
  "program_file broken_kernel_world ''./vector_ops.txt'' = Some ''__kernel''"
  "malloc_ok broken_kernel_world (of_nat (length ''__kernel'') + 1)"
  "\<not> sint (program_err broken_kernel_world) < 0"
  "sint (build_err broken_kernel_world) < 0"
  "malloc_ok broken_kernel_world (of_nat (length (build_log broken_kernel_world)) + 1 + 1)"
  "NUL \<notin> set (build_log broken_kernel_world)"
  "build_log broken_kernel_world = ''1:1: error: unknown type name''"
  by code_simp+

lemma main_crashes_at_log:
  assumes "0 \<le> sint (SZ (after_args argv))"
    and "malloc_ok w (nbytes (SZ (after_args argv)))"
    and "selected w \<noteq> None"
    and "\<not> sint (context_err w) < 0"
    and "program_file w ''./vector_ops.txt'' = Some source"
    and "malloc_ok w (of_nat (length source) + 1)"
    and "\<not> sint (program_err w) < 0"
    and "sint (build_err w) < 0"
    and "\<not> malloc_ok w (of_nat (length (build_log w)) + 1 + 1)"
  shows "exit_status (main w argv) = None"
    and "trace (final (main w argv)) =
           host_events w (SZ (after_args argv)) @ device_queries w @
           [CreateContext, Fopen ''./vector_ops.txt'', CreateProgramWithSource,
            BuildProgram, GetProgramBuildInfo]"
proof -
  define sz where "sz = SZ (after_args argv)"
  have s0: "after_args argv = initial_globals\<lparr>SZ := sz\<rparr>"
    unfolding sz_def by (rule after_args_eq)
  have sz: "0 \<le> sint sz" "malloc_ok w (nbytes sz)" using assms by (simp_all add: sz_def)
  have r0: "rand_calls initial_globals = 0" "trace initial_globals = []"
    by (simp_all add: initial_globals_def)
  note steps = init_success [OF sz] print_success [OF sz(1)]
    setup_openCL_device_context_queue_kernel_def create_device_success [OF assms(3)]
    build_program_def emit_def Let_def host_events_def input_a_def input_b_def r0
  show "exit_status (main w argv) = None"
    unfolding main_blocks sz_def [symmetric] s0 using assms(4-9) by (simp add: steps)
  show "trace (final (main w argv)) =
           host_events w (SZ (after_args argv)) @ device_queries w @
           [CreateContext, Fopen ''./vector_ops.txt'', CreateProgramWithSource,
            BuildProgram, GetProgramBuildInfo]"
    unfolding main_blocks sz_def [symmetric] s0 using assms(4-9) by (simp add: steps)
qed

lemma tight_facts:
  "malloc_ok tight_world 8"
  "selected tight_world \<noteq> None"
  "\<not> sint (context_err tight_world) < 0"
  "program_file tight_world ''./vector_ops.txt'' = Some ''__kernel''"
  "malloc_ok tight_world (of_nat (length ''__kernel'') + 1)"
  "\<not> sint (program_err tight_world) < 0"
  "sint (build_err tight_world) < 0"
  "\<not> malloc_ok tight_world (of_nat (length (build_log tight_world)) + 1 + 1)"
  "build_log tight_world = ''1:1: error: unknown type name''"
  by code_simp+



subsection \<open>Counts that are not positive\<close>

lemma atoi_no_number:
  "s = [] \<or> \<not> isspace (hd s) \<and> \<not> isdigit (hd s) \<and> hd s \<noteq> CHR ''-'' \<and> hd s \<noteq> CHR ''+'' \<Longrightarrow>
   atoi s = 0"
  by (cases s) (auto simp: atoi_def strtol_def atoi_digits_def LONG_MAX_def)

lemma main_runs_nonpositive:
  assumes "sint (SZ (after_args argv)) \<le> 0"
    and "setup_ok w"
    and "\<not> sint (args_status w) < 0"
  shows "exit_status (main w argv) = Some 0"
    and "trace (final (main w argv)) = empty_run w (SZ (after_args argv))"
proof -
  define sz where "sz = SZ (after_args argv)"
  have s0: "after_args argv = initial_globals\<lparr>SZ := sz\<rparr>"
    unfolding sz_def by (rule after_args_eq)
  have sz: "sint sz \<le> 0" using assms(1) by (simp add: sz_def)
  have no_cells: "print A sz s = Continue () (s\<lparr>trace := trace s @ [rule_line]\<rparr>)" for A s
    using sz by (rule print_nothing)
  note steps = init_nothing [OF sz] no_cells setup_success [OF assms(2)] copy_kernel_args_eq
    launch_and_report_def Let_def emit_def
  show "exit_status (main w argv) = Some 0"
    unfolding main_blocks sz_def [symmetric] s0 using assms(3) by (simp add: steps)
  show "trace (final (main w argv)) = empty_run w (SZ (after_args argv))"
    unfolding main_blocks sz_def [symmetric] s0 using assms(3)
    by (simp add: steps empty_run_def launch_events_def initial_globals_def)
qed

lemma quiet_empty_run: "filter is_perror (empty_run w sz) = []"
  by (simp add: empty_run_def quiet_setup_events memory_events_def arg_events_def
        launch_events_def release_events_def rule_line_def)

lemma argument_facts:
  "1 < length letters_argument" "letters_argument ! Suc 0 = ''abc''" "atoi ''abc'' = 0"
  "1 < length negative_argument" "negative_argument ! Suc 0 = ''-5''" "atoi ''-5'' = - 5"
  "1 < length beyond_long_argument"
  "beyond_long_argument ! Suc 0 = ''9223372036854775808''"
  "atoi ''9223372036854775808'' = - 1"
  by code_simp+

lemma invalid_size_ok:
  "setup_ok invalid_size_world" "\<not> sint (args_status invalid_size_world) < 0"
  by code_simp+

section \<open>The claims\<close>

text \<open>
  Claim C1. For an element count \<open>N \<ge> 1\<close>, on a machine that serves the three host
  arrays and on which every call of the pipeline succeeds, the run ends with status 0 and
  the output array holds at every index \<open>i < N\<close> the sum of the two input arrays at \<open>i\<close>.
  The inputs are below 100, so the 32-bit sum is the sum of the integers. The kernel is
  the one modelled from the specification; it runs on what \<open>copy_kernel_args\<close> bound to
  the kernel object that set-up created.
\<close>

theorem pipeline_adds_elementwise:
  assumes "1 \<le> sint (SZ (after_args argv))"
    and "malloc_ok w (nbytes (SZ (after_args argv)))"
    and "setup_ok w"
    and "\<not> sint (args_status w) < 0"
    and "transfers_ok w"
  shows "\<exists>s a b out.
           main w argv = Exited 0 s \<and>
           a = input_a w (SZ (after_args argv)) \<and> b = input_b w (SZ (after_args argv)) \<and>
           v1 s = Some a \<and> v2 s = Some b \<and> v_out s = Some out \<and>
           length a = nat (sint (SZ (after_args argv))) \<and>
           length b = nat (sint (SZ (after_args argv))) \<and>
           length out = nat (sint (SZ (after_args argv))) \<and>
           (\<forall>i < nat (sint (SZ (after_args argv))).
              out ! i = a ! i + b ! i \<and> sint (out ! i) = sint (a ! i) + sint (b ! i))"
proof -
  let ?sz = "SZ (after_args argv)"
  have nonneg: "0 \<le> sint ?sz" using assms(1) by simp
  from main_completes [OF nonneg assms(2-4)] assms(5)
  obtain out s where run: "main w argv = Exited 0 s"
    and s: "v1 s = Some (input_a w ?sz)" "v2 s = Some (input_b w ?sz)" "v_out s = Some out"
    and out: "out = map2 (+) (input_a w ?sz) (input_b w ?sz)"
    by blast
  have "out ! i = input_a w ?sz ! i + input_b w ?sz ! i \<and>
        sint (out ! i) = sint (input_a w ?sz ! i) + sint (input_b w ?sz ! i)"
    if "i < nat (sint ?sz)" for i
    using that
    by (simp add: out input_a_def input_b_def rand_array_nth sint_sum_small)
  then show ?thesis using run s out by simp
qed

text \<open>The sample machine with two elements: the inputs 3, 10 and 17, 24 give 20, 34.\<close>

theorem pipeline_adds_elementwise_witness:
  "\<exists>s. main sample_world two_elements = Exited 0 s \<and>
       v1 s = Some [3, 10] \<and> v2 s = Some [17, 24] \<and> v_out s = Some [20, 34]"
proof -
  have h: "1 \<le> sint (SZ (after_args two_elements))"
    "malloc_ok sample_world (nbytes (SZ (after_args two_elements)))"
    by (simp_all add: sample_count sample_sizes sample_ok)
  from pipeline_adds_elementwise [OF h sample_ok(2,3,4)]
  obtain s out where run: "main sample_world two_elements = Exited 0 s"
    and s: "v1 s = Some [3, 10]" "v2 s = Some [17, 24]" "v_out s = Some out"
    and len: "length out = 2"
    and sums: "\<forall>i<2. out ! i = [3, 10] ! i + [17, 24 :: 32 word] ! i"
    by (auto simp: sample_count sample_inputs)
  from len obtain x y where xy: "out = [x, y]"
    by (auto simp: numeral_2_eq_2 length_Suc_conv)
  from sums have "out ! 0 = 20" "out ! 1 = 34" by simp_all
  then have "out = [20, 34]" by (simp add: xy)
  with run s show ?thesis by simp
qed

text \<open>
  Claim C2. The claim is that the measured span holds the submission of the kernel and the
  wait on its event and nothing else. On the sample machine the span between the two
  readings of the clock also holds the download of the output buffer and the printing of
  the output array: the second reading comes after \<open>print(v_out, SZ)\<close>.
\<close>

theorem measured_span_includes_download:
  "timed (trace (final (main sample_world two_elements))) =
     [EnqueueNDRangeKernel 2, WaitForEvents, EnqueueReadBuffer BufV_out True 8,
      Printf ''20 '', Printf ''34 '', rule_line]"
proof -
  have h: "0 \<le> sint (SZ (after_args two_elements))"
    "malloc_ok sample_world (nbytes (SZ (after_args two_elements)))"
    by (simp_all add: sample_count sample_sizes sample_ok)
  from timed_completes [OF h sample_ok(2,3)] sample_ok(4)
  show ?thesis
    by (auto simp: sample_count sample_sizes sample_inputs sample_previews)
qed

text \<open>
  Claim C3. The claim is that a failed buffer creation, transfer or kernel submission is
  reported and ends the process with a nonzero status. On each of the three machines
  below such a call fails, the program goes on through the remaining queue operations,
  writes nothing with \<open>perror\<close> and ends with status 0.
\<close>

theorem unchecked_failures_go_unreported:
  "(sint (buffer_err no_buffers_world BufV1) < 0 \<and>
    exit_status (main no_buffers_world two_elements) = Some 0 \<and>
    filter is_perror (trace (final (main no_buffers_world two_elements))) = [] \<and>
    filter is_queue_op (trace (final (main no_buffers_world two_elements))) =
      uploads 8 @ [EnqueueNDRangeKernel 2, WaitForEvents, EnqueueReadBuffer BufV_out True 8]) \<and>
   (sint (write_err no_transfer_world BufV1) < 0 \<and> sint (read_err no_transfer_world) < 0 \<and>
    exit_status (main no_transfer_world two_elements) = Some 0 \<and>
    filter is_perror (trace (final (main no_transfer_world two_elements))) = [] \<and>
    filter is_queue_op (trace (final (main no_transfer_world two_elements))) =
      uploads 8 @ [EnqueueNDRangeKernel 2, WaitForEvents, EnqueueReadBuffer BufV_out True 8]) \<and>
   (sint (enqueue_err no_launch_world) < 0 \<and>
    exit_status (main no_launch_world two_elements) = Some 0 \<and>
    filter is_perror (trace (final (main no_launch_world two_elements))) = [] \<and>
    filter is_queue_op (trace (final (main no_launch_world two_elements))) =
      uploads 8 @ [EnqueueNDRangeKernel 2, WaitForEvents, EnqueueReadBuffer BufV_out True 8])"
proof -
  have h: "0 \<le> sint (SZ (after_args two_elements))" by (simp add: sample_count)
  have m: "nbytes (SZ (after_args two_elements)) = 8" "to_size_t (SZ (after_args two_elements)) = 2"
    by (simp_all add: sample_count sample_sizes)
  note a = completes_quietly [OF h, of no_buffers_world, unfolded m, OF unchecked_worlds_ok(1-3)]
  note b = completes_quietly [OF h, of no_transfer_world, unfolded m, OF unchecked_worlds_ok(4-6)]
  note c = completes_quietly [OF h, of no_launch_world, unfolded m, OF unchecked_worlds_ok(7-9)]
  show ?thesis using a b c unchecked_worlds_fail by simp
qed

text \<open>
  Claim C4, amended. With no platform \<open>create_device\<close> ends the process with status 1.
  Otherwise it looks at the first platform only: it returns a GPU of that platform if
  the platform exposes one, else a CPU of that platform if it exposes one, and ends the
  process with status 1 if the first platform exposes neither.
\<close>

theorem create_device_first_platform:
  "(platforms w = [] \<longrightarrow> exit_status (create_device w s) = Some 1) \<and>
   (\<forall>p ps. platforms w = p # ps \<longrightarrow>
      (exposes p CL_DEVICE_TYPE_GPU \<longrightarrow>
         (\<exists>d. returned (create_device w s) = Some (Some d) \<and> d \<in> set p \<and>
              dev_type d = CL_DEVICE_TYPE_GPU)) \<and>
      (\<not> exposes p CL_DEVICE_TYPE_GPU \<and> exposes p CL_DEVICE_TYPE_CPU \<longrightarrow>
         (\<exists>d. returned (create_device w s) = Some (Some d) \<and> d \<in> set p \<and>
              dev_type d = CL_DEVICE_TYPE_CPU)) \<and>
      (\<not> exposes p CL_DEVICE_TYPE_GPU \<and> \<not> exposes p CL_DEVICE_TYPE_CPU \<longrightarrow>
         exit_status (create_device w s) = Some 1))"
proof (cases "selectDevice (platforms w)")
  case (Inl e)
  then show ?thesis using create_device_refines [of w s]
    by (cases e) (auto simp: selectDevice_def exposes_find split: list.splits option.splits)
next
  case (Inr d)
  with create_device_refines [of w s] have r: "returned (create_device w s) = Some (Some d)"
    by simp
  from selectDevice_Inr [OF Inr] obtain p rest where p: "platforms w = p # rest" "d \<in> set p"
    "dev_type d = (if exposes p CL_DEVICE_TYPE_GPU then CL_DEVICE_TYPE_GPU else CL_DEVICE_TYPE_CPU)"
    by blast
  then have "exposes p CL_DEVICE_TYPE_GPU \<or> exposes p CL_DEVICE_TYPE_CPU"
    by (auto simp: exposes_def intro: rev_image_eqI split: if_splits)
  with p r show ?thesis by auto
qed

text \<open>One machine of each kind: no platform, a GPU, a CPU only, neither class first.\<close>

theorem create_device_first_platform_witness:
  "exit_status (create_device no_platform_world initial_globals) = Some 1 \<and>
   returned (create_device sample_world initial_globals) = Some (Some (Device 0 CL_DEVICE_TYPE_GPU)) \<and>
   returned (create_device cpu_only_world initial_globals) = Some (Some (Device 0 CL_DEVICE_TYPE_CPU)) \<and>
   exit_status (create_device second_platform_world initial_globals) = Some 1"
proof -
  have p: "platforms no_platform_world = []"
    "platforms sample_world = [Device 0 CL_DEVICE_TYPE_GPU] # []"
    "platforms cpu_only_world = [Device 0 CL_DEVICE_TYPE_CPU] # []"
    "platforms second_platform_world =
       [Device 0 CL_DEVICE_TYPE_ACCELERATOR] # [[Device 1 CL_DEVICE_TYPE_CPU]]"
    by (simp_all add: no_platform_world_def sample_world_def cpu_only_world_def
          second_platform_world_def)
  have e: "exposes [Device 0 CL_DEVICE_TYPE_GPU] CL_DEVICE_TYPE_GPU"
    "\<not> exposes [Device 0 CL_DEVICE_TYPE_CPU] CL_DEVICE_TYPE_GPU"
    "exposes [Device 0 CL_DEVICE_TYPE_CPU] CL_DEVICE_TYPE_CPU"
    "\<not> exposes [Device 0 CL_DEVICE_TYPE_ACCELERATOR] CL_DEVICE_TYPE_GPU"
    "\<not> exposes [Device 0 CL_DEVICE_TYPE_ACCELERATOR] CL_DEVICE_TYPE_CPU"
    by (simp_all add: exposes_def)
  show ?thesis
    using create_device_first_platform [of no_platform_world initial_globals]
      create_device_first_platform [of sample_world initial_globals]
      create_device_first_platform [of cpu_only_world initial_globals]
      create_device_first_platform [of second_platform_world initial_globals]
    by (auto simp: p e)
qed

text \<open>
  The claim as first stated fails: on a machine whose second platform exposes a CPU while the first
  exposes neither class, \<open>create_device\<close> ends the process.
\<close>

theorem later_platform_is_not_searched:
  "exposes (platforms second_platform_world ! 1) CL_DEVICE_TYPE_CPU \<and>
   create_device second_platform_world initial_globals =
     Exited 1 (initial_globals\<lparr>trace :=
       [GetPlatformIDs, GetDeviceIDs CL_DEVICE_TYPE_GPU, GetDeviceIDs CL_DEVICE_TYPE_CPU,
        Perror ''Couldn't access any devices'']\<rparr>)"
  by (simp add: second_platform_world_def sample_world_def exposes_def create_device_def
        clGetPlatformIDs_def clGetDeviceIDs_def emit_def Let_def initial_globals_def)

text \<open>
  Claim C5. If the binding of any of the four kernel arguments fails, \<open>copy_kernel_args\<close>
  ends the process with status 1, and no run of \<open>main\<close> submits the kernel or ends with
  status 0.
\<close>

theorem binding_failure_prevents_launch:
  "sint (arg_err w 0) < 0 \<or> sint (arg_err w 1) < 0 \<or>
   sint (arg_err w 2) < 0 \<or> sint (arg_err w 3) < 0 \<Longrightarrow>
   exit_status (copy_kernel_args w s) = Some 1 \<and>
   filter is_launch (trace (final (main w argv))) = [] \<and>
   exit_status (main w argv) \<noteq> Some 0"
proof -
  assume "sint (arg_err w 0) < 0 \<or> sint (arg_err w 1) < 0 \<or>
          sint (arg_err w 2) < 0 \<or> sint (arg_err w 3) < 0"
  then have neg: "sint (args_status w) < 0" by (simp add: args_status_neg)
  then have a: "exit_status (copy_kernel_args w s) = Some 1"
    by (simp add: copy_kernel_args_eq)
  from main_shape [of w argv] neg obtain pre out where pre: "list_all early pre"
    and cases: "(trace (final (main w argv)) = pre \<and> exit_status (main w argv) \<noteq> Some 0) \<or>
       (exit_status (main w argv) = Some 1 \<and>
        trace (final (main w argv)) =
          pre @ memory_events (nbytes (SZ (after_args argv))) @ arg_events @
          [Perror ''Couldn't create a kernel argument'', Printf out])"
    unfolding run_shape_def Let_def by blast
  have "filter is_launch pre = []"
    using pre early_not_launch by (rule early_filter)
  with cases have "filter is_launch (trace (final (main w argv))) = [] \<and>
      exit_status (main w argv) \<noteq> Some 0"
    by (auto simp: memory_events_def arg_events_def)
  with a show ?thesis by simp
qed

text \<open>A machine on which the binding of argument 2 fails.\<close>

theorem binding_failure_prevents_launch_witness:
  "sint (arg_err bad_arg_world 2) < 0 \<and>
   exit_status (copy_kernel_args bad_arg_world initial_globals) = Some 1 \<and>
   filter is_launch (trace (final (main bad_arg_world two_elements))) = [] \<and>
   exit_status (main bad_arg_world two_elements) \<noteq> Some 0"
  using binding_failure_prevents_launch [of bad_arg_world initial_globals two_elements] bad_arg_ok(4)
  by simp

text \<open>
  Claim C6. In every run no transfer touches a buffer with outstanding device work and the
  kernel is submitted with nothing outstanding. The queue operations of a run are, in
  order, a prefix of: the two blocking uploads, the submission of the kernel, the wait on
  its event, the blocking download; the run stops before the uploads, after them, or
  performs all five.
\<close>

theorem host_waits_for_device:
  "hazard_free [] (trace (final (main w argv))) \<and>
   filter is_queue_op (trace (final (main w argv))) \<in>
     {[], uploads (nbytes (SZ (final (main w argv)))),
      uploads (nbytes (SZ (final (main w argv)))) @
        [EnqueueNDRangeKernel (to_size_t (SZ (final (main w argv)))), WaitForEvents,
         EnqueueReadBuffer BufV_out True (nbytes (SZ (final (main w argv))))]}"
proof -
  let ?tr = "trace (final (main w argv))"
  let ?n = "nbytes (SZ (after_args argv))"
  let ?g = "to_size_t (SZ (after_args argv))"
  have q: "filter is_queue_op ?tr = [] \<or> filter is_queue_op ?tr = uploads ?n \<or>
           filter is_queue_op ?tr =
             uploads ?n @ [EnqueueNDRangeKernel ?g, WaitForEvents, EnqueueReadBuffer BufV_out True ?n]"
  proof (cases rule: shape_cases [of w argv])
    case (stopped pre)
    then show ?thesis using early_filter [OF _ early_not_queue_op] by simp
  next
    case (args pre out)
    then show ?thesis using early_filter [OF _ early_not_queue_op, of pre]
      by (simp add: memory_events_def arg_events_def uploads_def)
  next
    case (crashed pre ps)
    moreover have "filter is_queue_op ps = []" using crashed(3) by (rule printf_filter) simp
    ultimately show ?thesis using early_filter [OF _ early_not_queue_op, of pre]
      by (simp add: memory_events_def arg_events_def uploads_def launch_events_def)
  next
    case (completed pre ps)
    moreover have "filter is_queue_op ps = []" using completed(3) by (rule printf_filter) simp
    ultimately show ?thesis using early_filter [OF _ early_not_queue_op, of pre]
      by (simp add: memory_events_def arg_events_def uploads_def launch_events_def release_events_def)
  qed
  then have "hazard_free [] (filter is_queue_op ?tr)"
    by (auto simp: uploads_def)
  then have "hazard_free [] ?tr" by (simp add: hazard_free_filter [symmetric])
  with q show ?thesis by (simp add: main_keeps_count)
qed

text \<open>The sample machine performs all five queue operations.\<close>

theorem host_waits_for_device_witness:
  "hazard_free [] (trace (final (main sample_world two_elements))) \<and>
   filter is_queue_op (trace (final (main sample_world two_elements))) =
     uploads 8 @ [EnqueueNDRangeKernel 2, WaitForEvents, EnqueueReadBuffer BufV_out True 8]"
proof -
  have h: "0 \<le> sint (SZ (after_args two_elements))"
    "malloc_ok sample_world (nbytes (SZ (after_args two_elements)))"
    by (simp_all add: sample_count sample_sizes sample_ok)
  from completes_quietly(3) [OF h sample_ok(2,3)]
  have "filter is_queue_op (trace (final (main sample_world two_elements))) =
     uploads 8 @ [EnqueueNDRangeKernel 2, WaitForEvents, EnqueueReadBuffer BufV_out True 8]"
    by (simp add: sample_count sample_sizes)
  with host_waits_for_device [of sample_world two_elements] show ?thesis by simp
qed

text \<open>
  Claim C7, amended. Whenever a run reaches \<open>clBuildProgram\<close>, the build fails and the C
  library serves the block for the log, the process asks for the log twice (size, then
  text), prints the whole log followed by a newline as its last action and ends with
  status 1. The log is a C string, so it holds no NUL.
\<close>

theorem build_failure_prints_log:
  assumes "sint (build_err w) < 0"
    and "malloc_ok w (of_nat (length (build_log w)) + 1 + 1)"
    and "NUL \<notin> set (build_log w)"
    and "BuildProgram \<in> set (trace (final (main w argv)))"
  shows "exit_status (main w argv) = Some 1 \<and>
         (\<exists>pre. BuildProgram \<notin> set pre \<and>
            trace (final (main w argv)) =
              pre @ [BuildProgram, GetProgramBuildInfo, GetProgramBuildInfo,
                     Printf (build_log w @ [CHR 0x0A])])"
  using main_reports_build [OF assms(1-3), of argv] assms(4)
  by (simp add: build_reported_def log_report_def)

text \<open>A machine whose compiler rejects the kernel.\<close>

theorem build_failure_prints_log_witness:
  "exit_status (main broken_kernel_world two_elements) = Some 1 \<and>
   last (trace (final (main broken_kernel_world two_elements))) =
     Printf (''1:1: error: unknown type name'' @ [CHR 0x0A])"
proof -
  have h: "0 \<le> sint (SZ (after_args two_elements))"
    "malloc_ok broken_kernel_world (nbytes (SZ (after_args two_elements)))"
    by (simp_all add: sample_count sample_sizes broken_kernel_facts)
  have "BuildProgram \<in> set (trace (final (main broken_kernel_world two_elements)))"
    by (simp add: main_stops_at_build [OF h broken_kernel_facts(2-9)] log_report_def)
  from build_failure_prints_log [OF broken_kernel_facts(7-9) this]
  show ?thesis by (auto simp: broken_kernel_facts(10))
qed

text \<open>
  The claim as first stated fails: \<open>build_program\<close> does not test what \<open>malloc\<close> returns
  for the log. On a machine that refuses that block the build fails, the run ends in the
  store through the null pointer, and nothing but the two previews was printed.
\<close>

theorem log_lost_when_block_refused:
  "sint (build_err tight_world) < 0 \<and>
   BuildProgram \<in> set (trace (final (main tight_world two_elements))) \<and>
   exit_status (main tight_world two_elements) = None \<and>
   filter is_printf (trace (final (main tight_world two_elements))) =
     [Printf ''3 '', Printf ''10 '', rule_line, Printf ''17 '', Printf ''24 '', rule_line]"
proof -
  have h: "0 \<le> sint (SZ (after_args two_elements))"
    "malloc_ok tight_world (nbytes (SZ (after_args two_elements)))"
    by (simp_all add: sample_count sample_sizes tight_facts)
  have hosts: "host_events tight_world 2 =
      [Malloc V1 8, Malloc V2 8, Malloc V_out 8,
       Printf ''3 '', Printf ''10 '', rule_line, Printf ''17 '', Printf ''24 '', rule_line]"
    by code_simp
  have queries: "filter is_printf (device_queries tight_world) = []"
    by (simp add: device_queries_def split: list.splits)
  note run = main_crashes_at_log [OF h tight_facts(2-8)]
  show ?thesis
    by (simp add: run tight_facts(7) sample_count hosts queries rule_line_def)
qed

text \<open>
  Claim C8, amended. In a run that ends with status 0 the buffers are created after the
  program is built, filled before the kernel is submitted, and released, with the kernel,
  queue, program, context and host arrays, after the download. A run that ends in any
  other way performs no release at all.
\<close>

theorem buffers_released_on_success_only:
  "(exit_status (main w argv) = Some 0 \<longrightarrow>
      BuildProgram \<in> set (takeWhile (\<lambda>e. \<not> is_create_buffer e) (trace (final (main w argv)))) \<and>
      filter buffer_life (trace (final (main w argv))) =
        memory_events (nbytes (SZ (final (main w argv)))) @
        [EnqueueNDRangeKernel (to_size_t (SZ (final (main w argv)))),
         EnqueueReadBuffer BufV_out True (nbytes (SZ (final (main w argv))))] @
        release_events) \<and>
   (exit_status (main w argv) \<noteq> Some 0 \<longrightarrow>
      filter is_release (trace (final (main w argv))) = [])"
proof (cases rule: shape_cases [of w argv])
  case (stopped pre)
  then show ?thesis using early_filter [OF _ early_not_release] by simp
next
  case (args pre out)
  then show ?thesis using early_filter [OF _ early_not_release, of pre]
    by (simp add: memory_events_def arg_events_def)
next
  case (crashed pre ps)
  moreover have "filter is_release ps = []" using crashed(3) by (rule printf_filter) simp
  ultimately show ?thesis using early_filter [OF _ early_not_release, of pre]
    by (simp add: memory_events_def arg_events_def launch_events_def)
next
  case (completed pre ps)
  have "filter buffer_life ps = []"
    using completed(3) by (rule printf_filter) (simp add: buffer_life_def)
  moreover have "filter buffer_life pre = []"
    using completed(1) early_not_buffer_life by (rule early_filter)
  moreover have "takeWhile (\<lambda>e. \<not> is_create_buffer e) (pre @ memory_events n @ rest) = pre" for n rest
  proof -
    have "\<forall>e\<in>set pre. \<not> is_create_buffer e"
      using completed(1) early_not_create_buffer by (auto simp: list_all_iff)
    then show ?thesis by (simp add: memory_events_def)
  qed
  ultimately show ?thesis using completed(2,4,5)
    by (simp add: main_keeps_count)
       (simp add: memory_events_def arg_events_def launch_events_def release_events_def
          buffer_life_def)
qed

text \<open>The sample machine, and a machine on which a binding fails.\<close>

theorem buffers_released_on_success_only_witness:
  "exit_status (main sample_world two_elements) = Some 0 \<and>
   BuildProgram \<in> set (takeWhile (\<lambda>e. \<not> is_create_buffer e)
                        (trace (final (main sample_world two_elements)))) \<and>
   filter buffer_life (trace (final (main sample_world two_elements))) =
     memory_events 8 @ [EnqueueNDRangeKernel 2, EnqueueReadBuffer BufV_out True 8] @
     release_events \<and>
   exit_status (main bad_arg_world two_elements) \<noteq> Some 0 \<and>
   filter is_release (trace (final (main bad_arg_world two_elements))) = []"
proof -
  have h: "0 \<le> sint (SZ (after_args two_elements))"
    "malloc_ok sample_world (nbytes (SZ (after_args two_elements)))"
    by (simp_all add: sample_count sample_sizes sample_ok)
  have ok: "exit_status (main sample_world two_elements) = Some 0"
    by (rule completes_quietly(1) [OF h sample_ok(2,3)])
  have bad: "exit_status (main bad_arg_world two_elements) \<noteq> Some 0"
    by (simp add: bad_arg_run)
  have n: "SZ (final (main sample_world two_elements)) = 2"
    by (simp add: main_keeps_count sample_count)
  show ?thesis
    using buffers_released_on_success_only [of sample_world two_elements]
      buffers_released_on_success_only [of bad_arg_world two_elements] ok bad
    by (simp add: n sample_sizes)
qed

text \<open>
  The claim as first stated fails: on a machine on which the binding of argument 2 fails the process
  ends with status 1 after the three buffers were created and without one release.
\<close>

theorem error_exit_leaves_buffers:
  "exit_status (main bad_arg_world two_elements) = Some 1 \<and>
   filter is_create_buffer (trace (final (main bad_arg_world two_elements))) =
     [CreateBuffer BufV1 8, CreateBuffer BufV2 8, CreateBuffer BufV_out 8] \<and>
   filter is_release (trace (final (main bad_arg_world two_elements))) = []"
proof -
  have "filter is_create_buffer (host_events bad_arg_world 2) = []"
    "filter is_create_buffer (setup_events bad_arg_world) = []"
    "filter is_release (host_events bad_arg_world 2) = []"
    "filter is_release (setup_events bad_arg_world) = []"
    using early_filter [OF early_host_events early_not_create_buffer]
      early_filter [OF early_setup_events early_not_create_buffer]
      early_filter [OF early_host_events early_not_release]
      early_filter [OF early_setup_events early_not_release]
    by simp_all
  then show ?thesis
    by (simp add: bad_arg_run memory_events_def arg_events_def)
qed

text \<open>
  Claim C9. For an array of 20 elements \<open>print\<close> writes the first 5 values, the ellipsis
  marker, the last 5 values and the rule line; for an array of 10 elements it writes all
  10 values and the rule line.
\<close>

theorem print_preview:
  "(length xs = 20 \<longrightarrow>
      print (Some xs) 20 s =
        Continue () (s\<lparr>trace := trace s @ map cell (take 5 xs) @ [ellipsis] @
                                   map cell (drop 15 xs) @ [rule_line]\<rparr>)) \<and>
   (length xs = 10 \<longrightarrow>
      print (Some xs) 10 s = Continue () (s\<lparr>trace := trace s @ map cell xs @ [rule_line]\<rparr>))"
proof -
  have "print (Some xs) 20 s = Continue () (s\<lparr>trace := trace s @ preview xs\<rparr>)"
    if "length xs = 20"
    using print_success [of 20 xs s] that by simp
  moreover have "print (Some xs) 10 s = Continue () (s\<lparr>trace := trace s @ preview xs\<rparr>)"
    if "length xs = 10"
    using print_success [of 10 xs s] that by simp
  ultimately show ?thesis by (simp add: preview_def)
qed

text \<open>The arrays 1 to 20 and 1 to 10.\<close>

theorem print_preview_witness:
  "print (Some [1, 2, 3, 4, 5, 6, 7, 8, 9, 10, 11, 12, 13, 14, 15, 16, 17, 18, 19, 20]) 20
     initial_globals =
     Continue () (initial_globals\<lparr>trace :=
       [Printf ''1 '', Printf ''2 '', Printf ''3 '', Printf ''4 '', Printf ''5 '',
        Printf '' ..... '',
        Printf ''16 '', Printf ''17 '', Printf ''18 '', Printf ''19 '', Printf ''20 '',
        rule_line]\<rparr>) \<and>
   print (Some [1, 2, 3, 4, 5, 6, 7, 8, 9, 10]) 10 initial_globals =
     Continue () (initial_globals\<lparr>trace :=
       [Printf ''1 '', Printf ''2 '', Printf ''3 '', Printf ''4 '', Printf ''5 '',
        Printf ''6 '', Printf ''7 '', Printf ''8 '', Printf ''9 '', Printf ''10 '',
        rule_line]\<rparr>)"
proof -
  have cells:
    "cell 1 = Printf ''1 ''"
    "cell 2 = Printf ''2 ''"
    "cell 3 = Printf ''3 ''"
    "cell 4 = Printf ''4 ''"
    "cell 5 = Printf ''5 ''"
    "cell 6 = Printf ''6 ''"
    "cell 7 = Printf ''7 ''"
    "cell 8 = Printf ''8 ''"
    "cell 9 = Printf ''9 ''"
    "cell 10 = Printf ''10 ''"
    "cell 16 = Printf ''16 ''"
    "cell 17 = Printf ''17 ''"
    "cell 18 = Printf ''18 ''"
    "cell 19 = Printf ''19 ''"
    "cell 20 = Printf ''20 ''"
    by code_simp+
  have t: "trace initial_globals = []" by (simp add: initial_globals_def)
  show ?thesis
    using print_preview [of "[1, 2, 3, 4, 5, 6, 7, 8, 9, 10, 11, 12, 13, 14, 15, 16, 17, 18, 19, 20]"
        initial_globals]
      print_preview [of "[1, 2, 3, 4, 5, 6, 7, 8, 9, 10]" initial_globals]
    by (simp add: cells t ellipsis_def)
qed

text \<open>
  Claim C10. With an argument, the element count of every run is \<open>atoi\<close> of that argument,
  as the C library computes it; an argument that does not start with a number gives 0.
  For a count that is zero or negative, on a machine on which the checked calls succeed,
  the run allocates, sets up the buffers, submits the kernel and ends with status 0,
  writing nothing with \<open>perror\<close>.
\<close>

theorem count_is_not_validated:
  assumes "1 < length argv"
  shows "SZ (final (main w argv)) = atoi (argv ! 1) \<and>
         (argv ! 1 = [] \<or>
          \<not> isspace (hd (argv ! 1)) \<and> \<not> isdigit (hd (argv ! 1)) \<and>
          hd (argv ! 1) \<noteq> CHR ''-'' \<and> hd (argv ! 1) \<noteq> CHR ''+'' \<longrightarrow>
            atoi (argv ! 1) = 0) \<and>
         (sint (atoi (argv ! 1)) \<le> 0 \<and> setup_ok w \<and> \<not> sint (args_status w) < 0 \<longrightarrow>
            exit_status (main w argv) = Some 0 \<and>
            filter is_perror (trace (final (main w argv))) = [] \<and>
            trace (final (main w argv)) = empty_run w (atoi (argv ! 1)))"
proof -
  have sz: "SZ (after_args argv) = atoi (argv ! 1)"
    using assms by (simp add: after_args_def)
  have run: "exit_status (main w argv) = Some 0 \<and>
        filter is_perror (trace (final (main w argv))) = [] \<and>
        trace (final (main w argv)) = empty_run w (atoi (argv ! 1))"
    if "sint (atoi (argv ! 1)) \<le> 0" "setup_ok w" "\<not> sint (args_status w) < 0"
  proof -
    have "sint (SZ (after_args argv)) \<le> 0"
      using that(1) by (simp add: sz)
    from main_runs_nonpositive [OF this that(2,3)] show ?thesis
      by (simp add: sz quiet_empty_run)
  qed
  have count: "SZ (final (main w argv)) = atoi (argv ! 1)"
    by (simp only: main_keeps_count sz)
  show ?thesis
    using count atoi_no_number [of "argv ! 1"] run by blast
qed

text \<open>
  The arguments \<open>abc\<close>, \<open>-5\<close> and \<open>9223372036854775808\<close> (one beyond \<open>LONG_MAX\<close>, count -1)
  on a machine that refuses buffers and work domains of such sizes.
\<close>

theorem count_is_not_validated_witness:
  "SZ (final (main invalid_size_world letters_argument)) = 0 \<and>
   exit_status (main invalid_size_world letters_argument) = Some 0 \<and>
   trace (final (main invalid_size_world letters_argument)) = empty_run invalid_size_world 0 \<and>
   SZ (final (main invalid_size_world negative_argument)) = - 5 \<and>
   exit_status (main invalid_size_world negative_argument) = Some 0 \<and>
   filter is_perror (trace (final (main invalid_size_world negative_argument))) = [] \<and>
   trace (final (main invalid_size_world negative_argument)) =
     empty_run invalid_size_world (- 5) \<and>
   SZ (final (main invalid_size_world beyond_long_argument)) = - 1 \<and>
   exit_status (main invalid_size_world beyond_long_argument) = Some 0"
  using count_is_not_validated [OF argument_facts(1), of invalid_size_world]
    count_is_not_validated [OF argument_facts(4), of invalid_size_world]
    count_is_not_validated [OF argument_facts(7), of invalid_size_world]
  by (simp add: argument_facts invalid_size_ok quiet_empty_run)

end
